theory Spec2Isabelle
  imports Main "HOL-Library.AList"
begin

section \<open>Data model\<close>

text \<open>
  The scripts talk to the media server through JSON documents. The model gives every
  document the shape the scripts read: a key the script reads with \<^verbatim>\<open>d['k']\<close> is a
  field, a key it reads with \<^verbatim>\<open>d.get('k')\<close> or \<^verbatim>\<open>d.get('k', default)\<close> is an
  optional field (\<open>None\<close> when the key is absent or null). Identifiers and titles are
  strings, \<^verbatim>\<open>addedAt\<close> is an integer number of milliseconds.
  Log output is not modelled.
\<close>

record progress =
  isFinished :: bool
  episodeId :: "string option"
  libraryItemId :: "string option"

record user_data =
  mediaProgress :: "progress list"

record library =
  lib_id :: string
  lib_name :: string
  mediaType :: "string option"

record item =
  item_id :: string

record episode =
  ep_id :: "string option"
  ep_title :: "string option"
  ep_addedAt :: "int option"

record metadata =
  md_title :: "string option"
  md_authorName :: "string option"

record media =
  media_metadata :: "metadata option"
  media_tags :: "string list option"
  media_episodes :: "episode list option"

record full_item =
  fi_media :: "media option"
  fi_addedAt :: "int option"

text \<open>\<^verbatim>\<open>d.get(k, default)\<close> on an optional field.\<close>

definition dict_get :: "'a option \<Rightarrow> 'a \<Rightarrow> 'a" where
  "dict_get field dflt = (case field of None \<Rightarrow> dflt | Some v \<Rightarrow> v)"

text \<open>
  Python truth of an optional string: absent, null and the empty string are falsy.
  The result is the string when it is truthy.
\<close>

fun truthy_str :: "string option \<Rightarrow> string option" where
  "truthy_str None = None"
| "truthy_str (Some s) = (if s = [] then None else Some s)"

text \<open>
  A Python \<^verbatim>\<open>set\<close> of strings is a duplicate-free list; \<open>set_add\<close> is \<^verbatim>\<open>s.add(x)\<close>.
  Python leaves the iteration order of a set open; the model iterates in insertion order.
\<close>

definition set_add :: "string \<Rightarrow> string list \<Rightarrow> string list" where
  "set_add x s = (if x \<in> set s then s else s @ [x])"

section \<open>The HTTP client\<close>

type_synonym params = "(string \<times> string) list"

datatype error = HTTPError | OtherException

text \<open>A DELETE request as \<^verbatim>\<open>_delete\<close> sends it: the endpoint and the query parameters.\<close>

datatype request = Delete string params

text \<open>
  The media server is a black box with a state of type \<open>'s\<close>. A GET reads the state,
  a DELETE may change it. Each field is the answer to one endpoint, after
  \<^verbatim>\<open>raise_for_status\<close> and \<^verbatim>\<open>json()\<close>: \<open>Inl\<close> is the exception raised.
  \<open>libraries_resp\<close> is the \<^verbatim>\<open>libraries\<close> array of \<^verbatim>\<open>/api/libraries\<close> and
  \<open>items_resp\<close> the \<^verbatim>\<open>results\<close> array of \<^verbatim>\<open>/api/libraries/{id}/items\<close> (both empty
  when the key is absent).
\<close>

record 's server =
  me_resp :: "'s \<Rightarrow> error + user_data"
  libraries_resp :: "'s \<Rightarrow> error + library list"
  items_resp :: "'s \<Rightarrow> string \<Rightarrow> params \<Rightarrow> error + item list"
  item_resp :: "'s \<Rightarrow> string \<Rightarrow> params \<Rightarrow> error + full_item"
  delete_resp :: "'s \<Rightarrow> string \<Rightarrow> params \<Rightarrow> error option \<times> 's"

text \<open>The world a run acts on: the server's state and the DELETE requests sent so far.\<close>

type_synonym 's world = "'s \<times> request list"

definition get_user_with_progress :: "'s server \<Rightarrow> 's \<Rightarrow> error + user_data" where
  "get_user_with_progress srv s = me_resp srv s"

definition get_libraries :: "'s server \<Rightarrow> 's \<Rightarrow> error + library list" where
  "get_libraries srv s = libraries_resp srv s"

definition get_podcast_libraries :: "'s server \<Rightarrow> 's \<Rightarrow> error + library list" where
  "get_podcast_libraries srv s =
     (case get_libraries srv s of
        Inl e \<Rightarrow> Inl e
      | Inr libs \<Rightarrow> Inr (filter (\<lambda>lib. mediaType lib = Some ''podcast'') libs))"

definition get_book_libraries :: "'s server \<Rightarrow> 's \<Rightarrow> error + library list" where
  "get_book_libraries srv s =
     (case get_libraries srv s of
        Inl e \<Rightarrow> Inl e
      | Inr libs \<Rightarrow> Inr (filter (\<lambda>lib. mediaType lib = Some ''book'') libs))"

text \<open>The listing is requested once, with no query parameters.\<close>

definition get_library_items :: "'s server \<Rightarrow> 's \<Rightarrow> string \<Rightarrow> error + item list" where
  "get_library_items srv s library_id = items_resp srv s library_id []"

definition get_library_item :: "'s server \<Rightarrow> 's \<Rightarrow> string \<Rightarrow> error + full_item" where
  "get_library_item srv s library_item_id =
     item_resp srv s library_item_id [(''expanded'', ''1'')]"

definition delete_req :: "'s server \<Rightarrow> 's world \<Rightarrow> string \<Rightarrow> params \<Rightarrow> error option \<times> 's world" where
  "delete_req srv w endpoint ps =
     (case delete_resp srv (fst w) endpoint ps of
        (r, s') \<Rightarrow> (r, (s', snd w @ [Delete endpoint ps])))"

definition episode_endpoint :: "string \<Rightarrow> string \<Rightarrow> string" where
  "episode_endpoint library_item_id episode_id =
     ''/api/podcasts/'' @ library_item_id @ ''/episode/'' @ episode_id"

definition item_endpoint :: "string \<Rightarrow> string" where
  "item_endpoint library_item_id = ''/api/items/'' @ library_item_id"

definition delete_episode ::
  "'s server \<Rightarrow> 's world \<Rightarrow> string \<Rightarrow> string \<Rightarrow> bool \<Rightarrow> error option \<times> 's world" where
  "delete_episode srv w library_item_id episode_id hard_delete =
     delete_req srv w (episode_endpoint library_item_id episode_id)
       (if hard_delete then [(''hard'', ''1'')] else [])"

definition delete_library_item ::
  "'s server \<Rightarrow> 's world \<Rightarrow> string \<Rightarrow> bool \<Rightarrow> error option \<times> 's world" where
  "delete_library_item srv w library_item_id hard_delete =
     delete_req srv w (item_endpoint library_item_id)
       (if hard_delete then [(''hard'', ''1'')] else [])"

section \<open>Progress scan\<close>

text \<open>\<^verbatim>\<open>get_finished_media\<close> (v3, v4): one pass over \<^verbatim>\<open>mediaProgress\<close>, two sets.\<close>

fun finished_loop :: "progress list \<Rightarrow> string list \<times> string list \<Rightarrow> string list \<times> string list" where
  "finished_loop [] acc = acc"
| "finished_loop (p # ps) (finished_episodes, finished_audiobooks) =
     finished_loop ps
       (if isFinished p then
          (case truthy_str (episodeId p) of
             Some e \<Rightarrow> (set_add e finished_episodes, finished_audiobooks)
           | None \<Rightarrow>
               (case truthy_str (libraryItemId p) of
                  Some l \<Rightarrow> (finished_episodes, set_add l finished_audiobooks)
                | None \<Rightarrow> (finished_episodes, finished_audiobooks)))
        else (finished_episodes, finished_audiobooks))"

definition get_finished_media :: "user_data \<Rightarrow> string list \<times> string list" where
  "get_finished_media u = finished_loop (mediaProgress u) ([], [])"

text \<open>\<^verbatim>\<open>get_finished_episode_ids\<close> (v2): the episode set alone.\<close>

fun finished_episode_loop :: "progress list \<Rightarrow> string list \<Rightarrow> string list" where
  "finished_episode_loop [] finished = finished"
| "finished_episode_loop (p # ps) finished =
     finished_episode_loop ps
       (if isFinished p then
          (case truthy_str (episodeId p) of
             Some e \<Rightarrow> set_add e finished
           | None \<Rightarrow> finished)
        else finished)"

definition get_finished_episode_ids :: "user_data \<Rightarrow> string list" where
  "get_finished_episode_ids u = finished_episode_loop (mediaProgress u) []"

section \<open>Catalog scan\<close>

text \<open>
  The value \<^verbatim>\<open>build_episode_map\<close> stores per episode. v2 and v3 store three keys,
  v4 adds \<^verbatim>\<open>added_at\<close>.
\<close>

record ep_info =
  library_item_id :: string
  podcast_title :: string
  episode_title :: string

record ep_info4 = ep_info +
  added_at :: "int option"

record ab_info =
  ab_library_item_id :: string
  audiobook_title :: string
  author_name :: string

record ab_info4 = ab_info +
  ab_added_at :: "int option"

definition empty_media :: media where
  "empty_media = \<lparr>media_metadata = None, media_tags = None, media_episodes = None\<rparr>"

definition empty_metadata :: metadata where
  "empty_metadata = \<lparr>md_title = None, md_authorName = None\<rparr>"

text \<open>\<^verbatim>\<open>media = full_item.get('media', {})\<close> and the reads from it.\<close>

definition media_of :: "full_item \<Rightarrow> media" where
  "media_of full = dict_get (fi_media full) empty_media"

definition tags_of :: "full_item \<Rightarrow> string list" where
  "tags_of full = dict_get (media_tags (media_of full)) []"

definition episodes_of :: "full_item \<Rightarrow> episode list" where
  "episodes_of full = dict_get (media_episodes (media_of full)) []"

definition title_of :: "full_item \<Rightarrow> string \<Rightarrow> string" where
  "title_of full dflt =
     dict_get (md_title (dict_get (media_metadata (media_of full)) empty_metadata)) dflt"

definition author_of :: "full_item \<Rightarrow> string" where
  "author_of full =
     dict_get (md_authorName (dict_get (media_metadata (media_of full)) empty_metadata))
       ''Unknown Author''"

definition episode_entry_v3 :: "string \<Rightarrow> string \<Rightarrow> episode \<Rightarrow> ep_info" where
  "episode_entry_v3 lid ptitle ep =
     \<lparr>library_item_id = lid, podcast_title = ptitle,
      episode_title = dict_get (ep_title ep) ''Unknown Episode''\<rparr>"

definition episode_entry_v4 :: "string \<Rightarrow> string \<Rightarrow> episode \<Rightarrow> ep_info4" where
  "episode_entry_v4 lid ptitle ep =
     \<lparr>library_item_id = lid, podcast_title = ptitle,
      episode_title = dict_get (ep_title ep) ''Unknown Episode'',
      added_at = ep_addedAt ep\<rparr>"

definition audiobook_entry_v3 :: "string \<Rightarrow> full_item \<Rightarrow> ab_info" where
  "audiobook_entry_v3 lid full =
     \<lparr>ab_library_item_id = lid,
      audiobook_title = title_of full ''Unknown Audiobook'',
      author_name = author_of full\<rparr>"

definition audiobook_entry_v4 :: "string \<Rightarrow> full_item \<Rightarrow> ab_info4" where
  "audiobook_entry_v4 lid full =
     \<lparr>ab_library_item_id = lid,
      audiobook_title = title_of full ''Unknown Audiobook'',
      author_name = author_of full,
      ab_added_at = fi_addedAt full\<rparr>"

text \<open>
  \<^verbatim>\<open>build_episode_map\<close>. Its text is the same in v2, v3 and v4 but for the dictionary
  stored per episode, which is the parameter \<open>entry\<close>. A Python \<^verbatim>\<open>dict\<close> is an
  association list in insertion order; \<open>AList.update\<close> is \<^verbatim>\<open>d[k] = v\<close>.
  The innermost loop runs over the episodes of one podcast, the middle one over the items
  of one library, the outer one over the podcast libraries. A failed fetch of an item's
  details is caught and the item skipped; a failed listing is not caught.
\<close>

fun add_episodes ::
  "(string \<Rightarrow> string \<Rightarrow> episode \<Rightarrow> 'v) \<Rightarrow> string \<Rightarrow> string \<Rightarrow> episode list
     \<Rightarrow> (string \<times> 'v) list \<Rightarrow> (string \<times> 'v) list" where
  "add_episodes entry lid ptitle [] episode_map = episode_map"
| "add_episodes entry lid ptitle (ep # eps) episode_map =
     add_episodes entry lid ptitle eps
       (case truthy_str (ep_id ep) of
          Some episode_id \<Rightarrow> AList.update episode_id (entry lid ptitle ep) episode_map
        | None \<Rightarrow> episode_map)"

fun scan_podcasts ::
  "(string \<Rightarrow> string \<Rightarrow> episode \<Rightarrow> 'v) \<Rightarrow> 's server \<Rightarrow> 's \<Rightarrow> item list
     \<Rightarrow> (string \<times> 'v) list \<Rightarrow> (string \<times> 'v) list" where
  "scan_podcasts entry srv s [] episode_map = episode_map"
| "scan_podcasts entry srv s (it # its) episode_map =
     scan_podcasts entry srv s its
       (case get_library_item srv s (item_id it) of
          Inl e \<Rightarrow> episode_map
        | Inr full \<Rightarrow>
            if ''KEEP'' \<in> set (tags_of full) then episode_map
            else add_episodes entry (item_id it) (title_of full ''Unknown Podcast'')
                   (episodes_of full) episode_map)"

fun scan_podcast_libraries ::
  "(string \<Rightarrow> string \<Rightarrow> episode \<Rightarrow> 'v) \<Rightarrow> 's server \<Rightarrow> 's \<Rightarrow> library list
     \<Rightarrow> (string \<times> 'v) list \<Rightarrow> error + (string \<times> 'v) list" where
  "scan_podcast_libraries entry srv s [] episode_map = Inr episode_map"
| "scan_podcast_libraries entry srv s (lib # libs) episode_map =
     (case get_library_items srv s (lib_id lib) of
        Inl e \<Rightarrow> Inl e
      | Inr items \<Rightarrow>
          scan_podcast_libraries entry srv s libs (scan_podcasts entry srv s items episode_map))"

definition build_episode_map ::
  "(string \<Rightarrow> string \<Rightarrow> episode \<Rightarrow> 'v) \<Rightarrow> 's server \<Rightarrow> 's \<Rightarrow> error + (string \<times> 'v) list" where
  "build_episode_map entry srv s =
     (case get_podcast_libraries srv s of
        Inl e \<Rightarrow> Inl e
      | Inr libs \<Rightarrow> scan_podcast_libraries entry srv s libs [])"

definition build_episode_map_v3 :: "'s server \<Rightarrow> 's \<Rightarrow> error + (string \<times> ep_info) list" where
  "build_episode_map_v3 = build_episode_map episode_entry_v3"

definition build_episode_map_v4 :: "'s server \<Rightarrow> 's \<Rightarrow> error + (string \<times> ep_info4) list" where
  "build_episode_map_v4 = build_episode_map episode_entry_v4"

text \<open>
  \<^verbatim>\<open>build_audiobook_map\<close> (v3, v4; the stored dictionary is the parameter \<open>entry\<close>).
\<close>

fun scan_audiobooks ::
  "(string \<Rightarrow> full_item \<Rightarrow> 'v) \<Rightarrow> 's server \<Rightarrow> 's \<Rightarrow> string list \<Rightarrow> item list
     \<Rightarrow> (string \<times> 'v) list \<Rightarrow> (string \<times> 'v) list" where
  "scan_audiobooks entry srv s finished_audiobook_ids [] audiobook_map = audiobook_map"
| "scan_audiobooks entry srv s finished_audiobook_ids (it # its) audiobook_map =
     scan_audiobooks entry srv s finished_audiobook_ids its
       (if item_id it \<notin> set finished_audiobook_ids then audiobook_map
        else
          (case get_library_item srv s (item_id it) of
             Inl e \<Rightarrow> audiobook_map
           | Inr full \<Rightarrow>
               if ''KEEP'' \<in> set (tags_of full) then audiobook_map
               else AList.update (item_id it) (entry (item_id it) full) audiobook_map))"

fun scan_book_libraries ::
  "(string \<Rightarrow> full_item \<Rightarrow> 'v) \<Rightarrow> 's server \<Rightarrow> 's \<Rightarrow> string list \<Rightarrow> library list
     \<Rightarrow> (string \<times> 'v) list \<Rightarrow> error + (string \<times> 'v) list" where
  "scan_book_libraries entry srv s finished_audiobook_ids [] audiobook_map = Inr audiobook_map"
| "scan_book_libraries entry srv s finished_audiobook_ids (lib # libs) audiobook_map =
     (case get_library_items srv s (lib_id lib) of
        Inl e \<Rightarrow> Inl e
      | Inr items \<Rightarrow>
          scan_book_libraries entry srv s finished_audiobook_ids libs
            (scan_audiobooks entry srv s finished_audiobook_ids items audiobook_map))"

definition build_audiobook_map ::
  "(string \<Rightarrow> full_item \<Rightarrow> 'v) \<Rightarrow> 's server \<Rightarrow> 's \<Rightarrow> string list
     \<Rightarrow> error + (string \<times> 'v) list" where
  "build_audiobook_map entry srv s finished_audiobook_ids =
     (case get_book_libraries srv s of
        Inl e \<Rightarrow> Inl e
      | Inr libs \<Rightarrow> scan_book_libraries entry srv s finished_audiobook_ids libs [])"

definition build_audiobook_map_v3 ::
  "'s server \<Rightarrow> 's \<Rightarrow> string list \<Rightarrow> error + (string \<times> ab_info) list" where
  "build_audiobook_map_v3 = build_audiobook_map audiobook_entry_v3"

definition build_audiobook_map_v4 ::
  "'s server \<Rightarrow> 's \<Rightarrow> string list \<Rightarrow> error + (string \<times> ab_info4) list" where
  "build_audiobook_map_v4 = build_audiobook_map audiobook_entry_v4"

section \<open>Age filter (v4)\<close>

text \<open>
  \<^verbatim>\<open>is_old_enough\<close>. A \<^verbatim>\<open>timedelta\<close> and a \<^verbatim>\<open>datetime\<close> count whole microseconds:
  \<open>min_age\<close> is a number of microseconds, \<open>now\<close> is the reading of
  \<^verbatim>\<open>datetime.now()\<close> in microseconds since the epoch, and the item's timestamp of
  \<open>ms\<close> milliseconds is the instant \<open>1000 * ms\<close>. The conversion of the timestamp
  by \<^verbatim>\<open>datetime.fromtimestamp\<close> is taken to succeed, both instants are on the same
  clock, and a run reads the clock at one instant.
\<close>

definition timedelta_days :: "int \<Rightarrow> int" where
  "timedelta_days d = d * 86400000000"

definition is_old_enough :: "int option \<Rightarrow> int \<Rightarrow> int \<Rightarrow> bool" where
  "is_old_enough added_at_ms now min_age =
     (case added_at_ms of
        None \<Rightarrow> True
      | Some ms \<Rightarrow> if ms = 0 then True else min_age \<le> now - 1000 * ms)"

section \<open>Candidate selection and deletion\<close>

text \<open>
  The loop of \<^verbatim>\<open>main\<close> that finds the finished episodes still in the catalog (v2, v3).
  A candidate \<^verbatim>\<open>{'episode_id': id, **episode_map[id]}\<close> is the pair of the identifier and
  the map's value.
\<close>

fun find_episodes ::
  "(string \<times> 'v) list \<Rightarrow> string list \<Rightarrow> (string \<times> 'v) list \<Rightarrow> (string \<times> 'v) list" where
  "find_episodes episode_map [] episodes_to_delete = episodes_to_delete"
| "find_episodes episode_map (episode_id # rest) episodes_to_delete =
     find_episodes episode_map rest
       (case map_of episode_map episode_id of
          None \<Rightarrow> episodes_to_delete
        | Some ep_data \<Rightarrow> episodes_to_delete @ [(episode_id, ep_data)])"

text \<open>The same loop in v4, with the age check and the count of skipped items.\<close>

fun find_episodes_v4 ::
  "int option \<Rightarrow> int \<Rightarrow> (string \<times> ep_info4) list \<Rightarrow> string list
     \<Rightarrow> (string \<times> ep_info4) list \<times> nat \<Rightarrow> (string \<times> ep_info4) list \<times> nat" where
  "find_episodes_v4 age now episode_map [] acc = acc"
| "find_episodes_v4 age now episode_map (episode_id # rest) (episodes_to_delete, total_skipped_age) =
     find_episodes_v4 age now episode_map rest
       (case map_of episode_map episode_id of
          None \<Rightarrow> (episodes_to_delete, total_skipped_age)
        | Some ep_data \<Rightarrow>
            (case age of
               None \<Rightarrow> (episodes_to_delete @ [(episode_id, ep_data)], total_skipped_age)
             | Some a \<Rightarrow>
                 if \<not> is_old_enough (added_at ep_data) now a
                 then (episodes_to_delete, total_skipped_age + 1)
                 else (episodes_to_delete @ [(episode_id, ep_data)], total_skipped_age)))"

text \<open>The age filter over \<^verbatim>\<open>audiobook_map.items()\<close> (v4).\<close>

fun filter_audiobooks_v4 ::
  "int \<Rightarrow> int \<Rightarrow> (string \<times> ab_info4) list
     \<Rightarrow> (string \<times> ab_info4) list \<times> nat \<Rightarrow> (string \<times> ab_info4) list \<times> nat" where
  "filter_audiobooks_v4 a now [] acc = acc"
| "filter_audiobooks_v4 a now ((lib_item_id, ab_data) # rest) (audiobooks_to_delete, total_skipped_age) =
     filter_audiobooks_v4 a now rest
       (if is_old_enough (ab_added_at ab_data) now a
        then (AList.update lib_item_id ab_data audiobooks_to_delete, total_skipped_age)
        else (audiobooks_to_delete, total_skipped_age + 1))"

definition audiobooks_to_delete_v4 ::
  "int option \<Rightarrow> int \<Rightarrow> (string \<times> ab_info4) list \<Rightarrow> nat \<Rightarrow> (string \<times> ab_info4) list \<times> nat" where
  "audiobooks_to_delete_v4 age now audiobook_map total_skipped_age =
     (case age of
        Some a \<Rightarrow> filter_audiobooks_v4 a now audiobook_map ([], total_skipped_age)
      | None \<Rightarrow> (audiobook_map, total_skipped_age))"

text \<open>
  The deletion loops: one \<^verbatim>\<open>try\<close> per candidate, both \<^verbatim>\<open>except\<close> clauses count a
  failure and go on. The state is the world and the two counters.
\<close>

fun delete_episodes ::
  "'s server \<Rightarrow> bool \<Rightarrow> (string \<times> 'a ep_info_scheme) list
     \<Rightarrow> 's world \<times> nat \<times> nat \<Rightarrow> 's world \<times> nat \<times> nat" where
  "delete_episodes srv dry [] st = st"
| "delete_episodes srv dry (ep # eps) (w, total_deleted, total_failed) =
     delete_episodes srv dry eps
       (if dry then (w, total_deleted + 1, total_failed)
        else
          (case delete_episode srv w (library_item_id (snd ep)) (fst ep) True of
             (None, w') \<Rightarrow> (w', total_deleted + 1, total_failed)
           | (Some HTTPError, w') \<Rightarrow> (w', total_deleted, total_failed + 1)
           | (Some OtherException, w') \<Rightarrow> (w', total_deleted, total_failed + 1)))"

fun delete_audiobooks ::
  "'s server \<Rightarrow> bool \<Rightarrow> 'a ab_info_scheme list
     \<Rightarrow> 's world \<times> nat \<times> nat \<Rightarrow> 's world \<times> nat \<times> nat" where
  "delete_audiobooks srv dry [] st = st"
| "delete_audiobooks srv dry (ab # rest) (w, total_deleted, total_failed) =
     delete_audiobooks srv dry rest
       (if dry then (w, total_deleted + 1, total_failed)
        else
          (case delete_library_item srv w (ab_library_item_id ab) True of
             (None, w') \<Rightarrow> (w', total_deleted + 1, total_failed)
           | (Some HTTPError, w') \<Rightarrow> (w', total_deleted, total_failed + 1)
           | (Some OtherException, w') \<Rightarrow> (w', total_deleted, total_failed + 1)))"

section \<open>The three main programs\<close>

datatype media_kind = PODCASTS | AUDIOBOOKS | EVERYTHING

text \<open>
  The configuration after it has been resolved from the environment: v2 has the dry-run
  flag alone, v3 adds \<^verbatim>\<open>MEDIA_TYPE\<close>, v4 adds the parsed \<^verbatim>\<open>AGE\<close> (\<open>None\<close> when the
  variable is unset or blank).
\<close>

record config =
  dry_run :: bool
  media_type :: media_kind

record config4 = config +
  min_age :: "int option"

text \<open>
  A run ends by \<^verbatim>\<open>sys.exit(1)\<close> after a failed authentication, by an exception nobody
  catches, or normally.
\<close>

datatype abort = Exit1 | Uncaught error

definition process_podcasts :: "'a config_scheme \<Rightarrow> bool" where
  "process_podcasts cfg = (media_type cfg = PODCASTS \<or> media_type cfg = EVERYTHING)"

definition process_audiobooks :: "'a config_scheme \<Rightarrow> bool" where
  "process_audiobooks cfg = (media_type cfg = AUDIOBOOKS \<or> media_type cfg = EVERYTHING)"

text \<open>
  v2: \<open>Inr None\<close> is one of the two early returns (nothing finished, nothing to delete),
  \<open>Inr (Some (deleted, failed))\<close> the summary.
\<close>

definition main_v2 :: "'s server \<Rightarrow> bool \<Rightarrow> 's \<Rightarrow> (abort + (nat \<times> nat) option) \<times> 's world" where
  "main_v2 srv dry s0 =
     (case get_user_with_progress srv s0 of
        Inl HTTPError \<Rightarrow> (Inl Exit1, (s0, []))
      | Inl OtherException \<Rightarrow> (Inl (Uncaught OtherException), (s0, []))
      | Inr user_data \<Rightarrow>
          (let finished_episode_ids = get_finished_episode_ids user_data in
           if finished_episode_ids = [] then (Inr None, (s0, []))
           else
             (case build_episode_map_v3 srv s0 of
                Inl e \<Rightarrow> (Inl (Uncaught e), (s0, []))
              | Inr episode_map \<Rightarrow>
                  (let episodes_to_delete = find_episodes episode_map finished_episode_ids [] in
                   if episodes_to_delete = [] then (Inr None, (s0, []))
                   else
                     (case delete_episodes srv dry episodes_to_delete ((s0, []), 0, 0) of
                        (w, deleted_count, failed_count) \<Rightarrow>
                          (Inr (Some (deleted_count, failed_count)), w))))))"

text \<open>v3: the podcast block and the audiobook block of \<^verbatim>\<open>main\<close>, then \<^verbatim>\<open>main\<close>.\<close>

definition podcast_block_v3 ::
  "'s server \<Rightarrow> config \<Rightarrow> string list \<Rightarrow> 's world \<times> nat \<times> nat \<Rightarrow> error + 's world \<times> nat \<times> nat" where
  "podcast_block_v3 srv cfg finished_episode_ids st =
     (if process_podcasts cfg \<and> finished_episode_ids \<noteq> [] then
        (case build_episode_map_v3 srv (fst (fst st)) of
           Inl e \<Rightarrow> Inl e
         | Inr episode_map \<Rightarrow>
             Inr (delete_episodes srv (dry_run cfg)
                    (find_episodes episode_map finished_episode_ids []) st))
      else Inr st)"

definition audiobook_block_v3 ::
  "'s server \<Rightarrow> config \<Rightarrow> string list \<Rightarrow> 's world \<times> nat \<times> nat \<Rightarrow> error + 's world \<times> nat \<times> nat" where
  "audiobook_block_v3 srv cfg finished_audiobook_ids st =
     (if process_audiobooks cfg \<and> finished_audiobook_ids \<noteq> [] then
        (case build_audiobook_map_v3 srv (fst (fst st)) finished_audiobook_ids of
           Inl e \<Rightarrow> Inl e
         | Inr audiobook_map \<Rightarrow>
             Inr (delete_audiobooks srv (dry_run cfg) (map snd audiobook_map) st))
      else Inr st)"

definition main_v3 :: "'s server \<Rightarrow> config \<Rightarrow> 's \<Rightarrow> (abort + nat \<times> nat) \<times> 's world" where
  "main_v3 srv cfg s0 =
     (case get_user_with_progress srv s0 of
        Inl HTTPError \<Rightarrow> (Inl Exit1, (s0, []))
      | Inl OtherException \<Rightarrow> (Inl (Uncaught OtherException), (s0, []))
      | Inr user_data \<Rightarrow>
          (case get_finished_media user_data of
             (finished_episode_ids, finished_audiobook_ids) \<Rightarrow>
               (case podcast_block_v3 srv cfg finished_episode_ids ((s0, []), 0, 0) of
                  Inl e \<Rightarrow> (Inl (Uncaught e), (s0, []))
                | Inr st1 \<Rightarrow>
                    (case audiobook_block_v3 srv cfg finished_audiobook_ids st1 of
                       Inl e \<Rightarrow> (Inl (Uncaught e), fst st1)
                     | Inr (w, total_deleted, total_failed) \<Rightarrow>
                         (Inr (total_deleted, total_failed), w)))))"

text \<open>
  v4: the blocks carry the count of items skipped as too recent as well. \<open>now\<close> is the
  clock reading.
\<close>

definition podcast_block_v4 ::
  "'s server \<Rightarrow> config4 \<Rightarrow> int \<Rightarrow> string list \<Rightarrow> ('s world \<times> nat \<times> nat) \<times> nat
     \<Rightarrow> error + ('s world \<times> nat \<times> nat) \<times> nat" where
  "podcast_block_v4 srv cfg now finished_episode_ids st =
     (if process_podcasts cfg \<and> finished_episode_ids \<noteq> [] then
        (case build_episode_map_v4 srv (fst (fst (fst st))) of
           Inl e \<Rightarrow> Inl e
         | Inr episode_map \<Rightarrow>
             (case find_episodes_v4 (min_age cfg) now episode_map finished_episode_ids ([], snd st) of
                (episodes_to_delete, total_skipped_age) \<Rightarrow>
                  Inr (delete_episodes srv (dry_run cfg) episodes_to_delete (fst st),
                       total_skipped_age)))
      else Inr st)"

definition audiobook_block_v4 ::
  "'s server \<Rightarrow> config4 \<Rightarrow> int \<Rightarrow> string list \<Rightarrow> ('s world \<times> nat \<times> nat) \<times> nat
     \<Rightarrow> error + ('s world \<times> nat \<times> nat) \<times> nat" where
  "audiobook_block_v4 srv cfg now finished_audiobook_ids st =
     (if process_audiobooks cfg \<and> finished_audiobook_ids \<noteq> [] then
        (case build_audiobook_map_v4 srv (fst (fst (fst st))) finished_audiobook_ids of
           Inl e \<Rightarrow> Inl e
         | Inr audiobook_map \<Rightarrow>
             (case audiobooks_to_delete_v4 (min_age cfg) now audiobook_map (snd st) of
                (audiobooks_to_delete, total_skipped_age) \<Rightarrow>
                  Inr (delete_audiobooks srv (dry_run cfg) (map snd audiobooks_to_delete) (fst st),
                       total_skipped_age)))
      else Inr st)"

definition main_v4 ::
  "'s server \<Rightarrow> config4 \<Rightarrow> int \<Rightarrow> 's \<Rightarrow> (abort + nat \<times> nat \<times> nat) \<times> 's world" where
  "main_v4 srv cfg now s0 =
     (case get_user_with_progress srv s0 of
        Inl HTTPError \<Rightarrow> (Inl Exit1, (s0, []))
      | Inl OtherException \<Rightarrow> (Inl (Uncaught OtherException), (s0, []))
      | Inr user_data \<Rightarrow>
          (case get_finished_media user_data of
             (finished_episode_ids, finished_audiobook_ids) \<Rightarrow>
               (case podcast_block_v4 srv cfg now finished_episode_ids (((s0, []), 0, 0), 0) of
                  Inl e \<Rightarrow> (Inl (Uncaught e), (s0, []))
                | Inr st1 \<Rightarrow>
                    (case audiobook_block_v4 srv cfg now finished_audiobook_ids st1 of
                       Inl e \<Rightarrow> (Inl (Uncaught e), fst (fst st1))
                     | Inr ((w, total_deleted, total_failed), total_skipped_age) \<Rightarrow>
                         (Inr (total_deleted, total_failed, total_skipped_age), w)))))"

section \<open>Notions used in the statements\<close>

text \<open>
  An item passes the scan's test when its details were fetched and \<^verbatim>\<open>'KEEP' in tags\<close>
  was false.
\<close>

definition not_kept :: "'s server \<Rightarrow> 's \<Rightarrow> string \<Rightarrow> bool" where
  "not_kept srv s lid =
     (case get_library_item srv s lid of
        Inl e \<Rightarrow> False
      | Inr full \<Rightarrow> ''KEEP'' \<notin> set (tags_of full))"

text \<open>
  The episode identifiers the scan of a list of podcasts stores: the truthy identifiers of
  the episodes of the items that pass the test.
\<close>

definition podcast_episode_ids :: "'s server \<Rightarrow> 's \<Rightarrow> item list \<Rightarrow> string set" where
  "podcast_episode_ids srv s its =
     {e. \<exists>it \<in> set its. \<exists>full. get_library_item srv s (item_id it) = Inr full
           \<and> ''KEEP'' \<notin> set (tags_of full)
           \<and> (\<exists>ep \<in> set (episodes_of full). ep_id ep = Some e \<and> e \<noteq> [])}"

text \<open>
  Whether a finished identifier is a key of the episode map whose entry passes, or fails,
  the age check.
\<close>

definition episode_old_enough :: "int \<Rightarrow> int \<Rightarrow> (string \<times> ep_info4) list \<Rightarrow> string \<Rightarrow> bool" where
  "episode_old_enough a now M e =
     (case map_of M e of None \<Rightarrow> False | Some v \<Rightarrow> is_old_enough (added_at v) now a)"

definition episode_too_recent :: "int \<Rightarrow> int \<Rightarrow> (string \<times> ep_info4) list \<Rightarrow> string \<Rightarrow> bool" where
  "episode_too_recent a now M e =
     (case map_of M e of None \<Rightarrow> False | Some v \<Rightarrow> \<not> is_old_enough (added_at v) now a)"

section \<open>Example servers\<close>

text \<open>
  A small server for the examples: one podcast library with a podcast \<open>P1\<close> and a
  \<open>KEEP\<close>-tagged podcast \<open>P2\<close>, one book library with a book \<open>B1\<close> and a
  \<open>KEEP\<close>-tagged book \<open>B2\<close>. Its state is the list of endpoints deleted so far; the
  deletion of episode \<open>e5\<close> fails.
\<close>

definition demo_user :: user_data where
  "demo_user = \<lparr>mediaProgress =
     [\<lparr>isFinished = True, episodeId = Some ''e1'', libraryItemId = Some ''P1''\<rparr>,
      \<lparr>isFinished = True, episodeId = Some ''e2'', libraryItemId = Some ''P1''\<rparr>,
      \<lparr>isFinished = True, episodeId = Some ''e3'', libraryItemId = Some ''P2''\<rparr>,
      \<lparr>isFinished = False, episodeId = Some ''e4'', libraryItemId = Some ''P1''\<rparr>,
      \<lparr>isFinished = True, episodeId = Some ''e5'', libraryItemId = Some ''P1''\<rparr>,
      \<lparr>isFinished = True, episodeId = None, libraryItemId = Some ''B1''\<rparr>,
      \<lparr>isFinished = True, episodeId = None, libraryItemId = Some ''B2''\<rparr>]\<rparr>"

definition demo_libraries :: "library list" where
  "demo_libraries =
     [\<lparr>lib_id = ''L1'', lib_name = ''Podcasts'', mediaType = Some ''podcast''\<rparr>,
      \<lparr>lib_id = ''L2'', lib_name = ''Books'', mediaType = Some ''book''\<rparr>]"

definition demo_items :: "string \<Rightarrow> error + item list" where
  "demo_items library_id =
     (if library_id = ''L1'' then Inr [\<lparr>item_id = ''P1''\<rparr>, \<lparr>item_id = ''P2''\<rparr>]
      else if library_id = ''L2'' then Inr [\<lparr>item_id = ''B1''\<rparr>, \<lparr>item_id = ''B2''\<rparr>]
      else Inl HTTPError)"

definition demo_item :: "string \<Rightarrow> error + full_item" where
  "demo_item iid =
     (if iid = ''P1'' then
        Inr \<lparr>fi_media = Some \<lparr>media_metadata = Some \<lparr>md_title = Some ''Pod'', md_authorName = None\<rparr>,
               media_tags = Some [],
               media_episodes = Some
                 [\<lparr>ep_id = Some ''e1'', ep_title = Some ''One'', ep_addedAt = Some 1700000000000\<rparr>,
                  \<lparr>ep_id = Some ''e2'', ep_title = Some ''Two'', ep_addedAt = Some 1799000000000\<rparr>,
                  \<lparr>ep_id = Some ''e4'', ep_title = None, ep_addedAt = Some 1700000000000\<rparr>,
                  \<lparr>ep_id = Some ''e5'', ep_title = Some ''Five'', ep_addedAt = None\<rparr>]\<rparr>,
             fi_addedAt = Some 1600000000000\<rparr>
      else if iid = ''P2'' then
        Inr \<lparr>fi_media = Some \<lparr>media_metadata = None,
               media_tags = Some [''news'', ''KEEP''],
               media_episodes = Some
                 [\<lparr>ep_id = Some ''e3'', ep_title = Some ''Three'', ep_addedAt = Some 1700000000000\<rparr>]\<rparr>,
             fi_addedAt = Some 1600000000000\<rparr>
      else if iid = ''B1'' then
        Inr \<lparr>fi_media = Some \<lparr>media_metadata = Some \<lparr>md_title = Some ''Book'', md_authorName = Some ''A''\<rparr>,
               media_tags = None, media_episodes = None\<rparr>,
             fi_addedAt = Some 1700000000000\<rparr>
      else if iid = ''B2'' then
        Inr \<lparr>fi_media = Some \<lparr>media_metadata = None, media_tags = Some [''KEEP''],
               media_episodes = None\<rparr>,
             fi_addedAt = Some 1700000000000\<rparr>
      else Inl HTTPError)"

definition demo_server :: "string list server" where
  "demo_server =
     \<lparr>me_resp = (\<lambda>s. Inr demo_user),
      libraries_resp = (\<lambda>s. Inr demo_libraries),
      items_resp = (\<lambda>s library_id ps. demo_items library_id),
      item_resp = (\<lambda>s iid ps. demo_item iid),
      delete_resp = (\<lambda>s endpoint ps.
        if endpoint = ''/api/podcasts/P1/episode/e5'' then (Some HTTPError, s)
        else (None, s @ [endpoint]))\<rparr>"

definition demo_now :: int where
  "demo_now = 1800000000000000"

text \<open>The two maps the scans build on the example server.\<close>

definition demo_episodes :: "(string \<times> ep_info4) list" where
  "demo_episodes =
     [(''e1'', \<lparr>library_item_id = ''P1'', podcast_title = ''Pod'',
                episode_title = ''One'', added_at = Some 1700000000000\<rparr>),
      (''e2'', \<lparr>library_item_id = ''P1'', podcast_title = ''Pod'',
                episode_title = ''Two'', added_at = Some 1799000000000\<rparr>),
      (''e4'', \<lparr>library_item_id = ''P1'', podcast_title = ''Pod'',
                episode_title = ''Unknown Episode'', added_at = Some 1700000000000\<rparr>),
      (''e5'', \<lparr>library_item_id = ''P1'', podcast_title = ''Pod'',
                episode_title = ''Five'', added_at = None\<rparr>)]"

definition demo_audiobooks :: "(string \<times> ab_info4) list" where
  "demo_audiobooks =
     [(''B1'', \<lparr>ab_library_item_id = ''B1'', audiobook_title = ''Book'',
                author_name = ''A'', ab_added_at = Some 1700000000000\<rparr>)]"

text \<open>The configuration of the example runs, and the answer for the podcast \<open>P2\<close>.\<close>

definition demo_config :: "bool \<Rightarrow> config4" where
  "demo_config dry =
     \<lparr>dry_run = dry, media_type = EVERYTHING, min_age = Some (timedelta_days 30)\<rparr>"

definition demo_kept :: full_item where
  "demo_kept =
     \<lparr>fi_media = Some \<lparr>media_metadata = None,
            media_tags = Some [''news'', ''KEEP''],
            media_episodes = Some
              [\<lparr>ep_id = Some ''e3'', ep_title = Some ''Three'', ep_addedAt = Some 1700000000000\<rparr>]\<rparr>,
      fi_addedAt = Some 1600000000000\<rparr>"

definition demo_kept_book :: full_item where
  "demo_kept_book =
     \<lparr>fi_media = Some \<lparr>media_metadata = None, media_tags = Some [''KEEP''],
            media_episodes = None\<rparr>,
      fi_addedAt = Some 1700000000000\<rparr>"

definition demo_episodes_v3 :: "(string \<times> ep_info) list" where
  "demo_episodes_v3 =
     [(''e1'', \<lparr>library_item_id = ''P1'', podcast_title = ''Pod'', episode_title = ''One''\<rparr>),
      (''e2'', \<lparr>library_item_id = ''P1'', podcast_title = ''Pod'', episode_title = ''Two''\<rparr>),
      (''e4'', \<lparr>library_item_id = ''P1'', podcast_title = ''Pod'',
                episode_title = ''Unknown Episode''\<rparr>),
      (''e5'', \<lparr>library_item_id = ''P1'', podcast_title = ''Pod'', episode_title = ''Five''\<rparr>)]"

definition demo_audiobooks_v3 :: "(string \<times> ab_info) list" where
  "demo_audiobooks_v3 =
     [(''B1'', \<lparr>ab_library_item_id = ''B1'', audiobook_title = ''Book'', author_name = ''A''\<rparr>)]"

text \<open>
  A server that pages its listing: library \<open>L\<close> holds the podcasts \<open>A\<close> and \<open>B\<close>, a
  listing request without parameters is answered with the first page, \<open>[A]\<close>, and the
  request for page 1 with \<open>[B]\<close>. The user has finished the one episode of each.
\<close>

definition paged_item :: "string \<Rightarrow> string \<Rightarrow> full_item" where
  "paged_item ptitle eid =
     \<lparr>fi_media = Some \<lparr>media_metadata = Some \<lparr>md_title = Some ptitle, md_authorName = None\<rparr>,
            media_tags = Some [],
            media_episodes = Some
              [\<lparr>ep_id = Some eid, ep_title = Some ''Episode'', ep_addedAt = Some 1700000000000\<rparr>]\<rparr>,
      fi_addedAt = Some 1600000000000\<rparr>"

definition paged_server :: "unit server" where
  "paged_server =
     \<lparr>me_resp = (\<lambda>s. Inr \<lparr>mediaProgress =
         [\<lparr>isFinished = True, episodeId = Some ''a1'', libraryItemId = Some ''A''\<rparr>,
          \<lparr>isFinished = True, episodeId = Some ''b1'', libraryItemId = Some ''B''\<rparr>]\<rparr>),
      libraries_resp = (\<lambda>s. Inr [\<lparr>lib_id = ''L'', lib_name = ''Podcasts'',
                                   mediaType = Some ''podcast''\<rparr>]),
      items_resp = (\<lambda>s library_id ps.
         if library_id \<noteq> ''L'' then Inl HTTPError
         else if ps = [] \<or> ps = [(''page'', ''0'')] then Inr [\<lparr>item_id = ''A''\<rparr>]
         else if ps = [(''page'', ''1'')] then Inr [\<lparr>item_id = ''B''\<rparr>]
         else Inr []),
      item_resp = (\<lambda>s iid ps.
         if iid = ''A'' then Inr (paged_item ''Podcast A'' ''a1'')
         else if iid = ''B'' then Inr (paged_item ''Podcast B'' ''b1'')
         else Inl HTTPError),
      delete_resp = (\<lambda>s endpoint ps. (None, s))\<rparr>"

section \<open>Properties of the progress scan\<close>

lemma set_set_add: "set (set_add x s) = insert x (set s)"
  by (auto simp: set_add_def)

lemma distinct_set_add: "distinct s \<Longrightarrow> distinct (set_add x s)"
  by (simp add: set_add_def)

lemma truthy_str_Some: "truthy_str f = Some e \<longleftrightarrow> f = Some e \<and> e \<noteq> []"
  by (cases f) auto

lemma truthy_str_None: "truthy_str f = None \<longleftrightarrow> f = None \<or> f = Some []"
  by (cases f) auto

lemma finished_loop_fst:
  "set (fst (finished_loop ps (fe, fa))) =
     set fe \<union> {e. \<exists>p \<in> set ps. isFinished p \<and> episodeId p = Some e \<and> e \<noteq> []}"
proof (induction ps arbitrary: fe fa)
  case Nil
  show ?case by simp
next
  case (Cons p ps)
  show ?case
    by (cases "truthy_str (episodeId p)"; cases "truthy_str (libraryItemId p)")
       (auto simp: Cons.IH set_set_add truthy_str_Some truthy_str_None)
qed

lemma finished_loop_snd:
  "set (snd (finished_loop ps (fe, fa))) =
     set fa \<union> {l. \<exists>p \<in> set ps. isFinished p \<and> (episodeId p = None \<or> episodeId p = Some [])
                    \<and> libraryItemId p = Some l \<and> l \<noteq> []}"
proof (induction ps arbitrary: fe fa)
  case Nil
  show ?case by simp
next
  case (Cons p ps)
  show ?case
    by (cases "truthy_str (episodeId p)"; cases "truthy_str (libraryItemId p)")
       (auto simp: Cons.IH set_set_add truthy_str_Some truthy_str_None)
qed

lemma finished_loop_distinct:
  "distinct fe \<Longrightarrow> distinct fa \<Longrightarrow>
   distinct (fst (finished_loop ps (fe, fa))) \<and> distinct (snd (finished_loop ps (fe, fa)))"
proof (induction ps arbitrary: fe fa)
  case Nil
  then show ?case by simp
next
  case (Cons p ps)
  then show ?case
    by (cases "truthy_str (episodeId p)"; cases "truthy_str (libraryItemId p)")
       (simp_all add: distinct_set_add)
qed

lemma finished_episode_loop_set:
  "set (finished_episode_loop ps fe) =
     set fe \<union> {e. \<exists>p \<in> set ps. isFinished p \<and> episodeId p = Some e \<and> e \<noteq> []}"
proof (induction ps arbitrary: fe)
  case Nil
  show ?case by simp
next
  case (Cons p ps)
  show ?case
    by (cases "truthy_str (episodeId p)")
       (auto simp: Cons.IH set_set_add truthy_str_Some truthy_str_None)
qed

text \<open>
  C5. The finished-identifier collection returns exactly (a) the episodeId values of the
  progress entries that are finished and have a non-empty episodeId, and (b) the
  libraryItemId values of the entries that are finished, have no or an empty episodeId,
  and a non-empty libraryItemId. An entry with both identifiers counts for the episode
  set only, an unfinished entry for neither. The v2 collection returns the set (a).
\<close>

theorem get_finished_media_exact:
  "set (fst (get_finished_media u)) =
     {e. \<exists>p \<in> set (mediaProgress u). isFinished p \<and> episodeId p = Some e \<and> e \<noteq> []}
   \<and> set (snd (get_finished_media u)) =
     {l. \<exists>p \<in> set (mediaProgress u). isFinished p \<and> (episodeId p = None \<or> episodeId p = Some [])
           \<and> libraryItemId p = Some l \<and> l \<noteq> []}
   \<and> set (get_finished_episode_ids u) =
     {e. \<exists>p \<in> set (mediaProgress u). isFinished p \<and> episodeId p = Some e \<and> e \<noteq> []}"
  by (simp add: get_finished_media_def get_finished_episode_ids_def
      finished_loop_fst finished_loop_snd finished_episode_loop_set)

section \<open>Properties of the catalog scan\<close>

subsection \<open>The podcast scan\<close>


lemma in_update_cases:
  "x \<in> set (AList.update k v m) \<Longrightarrow> x = (k, v) \<or> x \<in> set m"
  by (induction m) (auto split: if_splits)

lemma add_episodes_inv:
  assumes "\<And>ep. P (entry lid pt ep)" "\<forall>x \<in> set m. P (snd x)"
  shows "\<forall>x \<in> set (add_episodes entry lid pt eps m). P (snd x)"
  using assms(2)
proof (induction eps arbitrary: m)
  case Nil
  then show ?case by simp
next
  case (Cons ep eps)
  show ?case
  proof (cases "truthy_str (ep_id ep)")
    case None
    then show ?thesis using Cons by simp
  next
    case (Some e)
    have "\<forall>x \<in> set (AList.update e (entry lid pt ep) m). P (snd x)"
      using Cons.prems assms(1) by (auto dest!: in_update_cases)
    then show ?thesis using Cons.IH Some by simp
  qed
qed

lemma scan_podcasts_inv:
  assumes good: "\<forall>lid pt ep. not_kept srv s lid \<longrightarrow> P (entry lid pt ep)"
    and m: "\<forall>x \<in> set m. P (snd x)"
  shows "\<forall>x \<in> set (scan_podcasts entry srv s its m). P (snd x)"
  using m
proof (induction its arbitrary: m)
  case Nil
  then show ?case by simp
next
  case (Cons it its)
  let ?m' = "(case get_library_item srv s (item_id it) of
          Inl e \<Rightarrow> m
        | Inr full \<Rightarrow>
            if ''KEEP'' \<in> set (tags_of full) then m
            else add_episodes entry (item_id it) (title_of full ''Unknown Podcast'')
                   (episodes_of full) m)"
  have "\<forall>x \<in> set ?m'. P (snd x)"
  proof (cases "get_library_item srv s (item_id it)")
    case (Inl e)
    then show ?thesis using Cons.prems by simp
  next
    case (Inr full)
    show ?thesis
    proof (cases "''KEEP'' \<in> set (tags_of full)")
      case True
      then show ?thesis using Inr Cons.prems by simp
    next
      case False
      then have "not_kept srv s (item_id it)" using Inr by (simp add: not_kept_def)
      then have "\<And>ep. P (entry (item_id it) (title_of full ''Unknown Podcast'') ep)"
        using good by blast
      then have "\<forall>x \<in> set (add_episodes entry (item_id it) (title_of full ''Unknown Podcast'')
                   (episodes_of full) m). P (snd x)"
        using Cons.prems by (rule add_episodes_inv)
      then show ?thesis using Inr False by simp
    qed
  qed
  then have "\<forall>x \<in> set (scan_podcasts entry srv s its ?m'). P (snd x)"
    by (rule Cons.IH)
  then show ?case by simp
qed

lemma scan_podcast_libraries_inv:
  assumes good: "\<forall>lid pt ep. not_kept srv s lid \<longrightarrow> P (entry lid pt ep)"
    and m: "\<forall>x \<in> set m. P (snd x)"
    and res: "scan_podcast_libraries entry srv s libs m = Inr M"
  shows "\<forall>x \<in> set M. P (snd x)"
  using m res
proof (induction libs arbitrary: m)
  case Nil
  then show ?case by simp
next
  case (Cons lib libs)
  from Cons.prems(2) obtain items where
    items: "get_library_items srv s (lib_id lib) = Inr items"
    and rest: "scan_podcast_libraries entry srv s libs (scan_podcasts entry srv s items m) = Inr M"
    by (auto split: sum.splits)
  have "\<forall>x \<in> set (scan_podcasts entry srv s items m). P (snd x)"
    using good Cons.prems(1) by (rule scan_podcasts_inv)
  then show ?case using rest by (rule Cons.IH)
qed

lemma build_episode_map_inv:
  assumes good: "\<forall>lid pt ep. not_kept srv s lid \<longrightarrow> P (entry lid pt ep)"
    and res: "build_episode_map entry srv s = Inr M"
  shows "\<forall>x \<in> set M. P (snd x)"
proof -
  from res obtain libs where "scan_podcast_libraries entry srv s libs [] = Inr M"
    by (auto simp: build_episode_map_def split: sum.splits)
  then show ?thesis
    using scan_podcast_libraries_inv[where m = "[]" and P = P, OF good] by simp
qed

lemma build_episode_map_v4_not_kept:
  assumes "build_episode_map_v4 srv s = Inr M"
  shows "\<forall>x \<in> set M. not_kept srv s (library_item_id (snd x))"
  using assms unfolding build_episode_map_v4_def
  by (rule build_episode_map_inv[rotated]) (simp add: episode_entry_v4_def)

lemma build_episode_map_v3_not_kept:
  assumes "build_episode_map_v3 srv s = Inr M"
  shows "\<forall>x \<in> set M. not_kept srv s (library_item_id (snd x))"
  using assms unfolding build_episode_map_v3_def
  by (rule build_episode_map_inv[rotated]) (simp add: episode_entry_v3_def)


lemma add_episodes_keys:
  "fst ` set (add_episodes entry lid pt eps m) =
     fst ` set m \<union> {e. \<exists>ep \<in> set eps. ep_id ep = Some e \<and> e \<noteq> []}"
proof (induction eps arbitrary: m)
  case Nil
  show ?case by simp
next
  case (Cons ep eps)
  show ?case
    by (cases "truthy_str (ep_id ep)")
       (auto simp: Cons.IH dom_update truthy_str_Some truthy_str_None)
qed

lemma podcast_episode_ids_Nil: "podcast_episode_ids srv s [] = {}"
  by (simp add: podcast_episode_ids_def)

lemma podcast_episode_ids_Cons:
  "podcast_episode_ids srv s (it # its) =
     (case get_library_item srv s (item_id it) of
        Inl e \<Rightarrow> {}
      | Inr full \<Rightarrow> if ''KEEP'' \<in> set (tags_of full) then {}
          else {e. \<exists>ep \<in> set (episodes_of full). ep_id ep = Some e \<and> e \<noteq> []})
     \<union> podcast_episode_ids srv s its"
  by (cases "get_library_item srv s (item_id it)") (auto simp: podcast_episode_ids_def)

lemma scan_podcasts_keys:
  "fst ` set (scan_podcasts entry srv s its m) = fst ` set m \<union> podcast_episode_ids srv s its"
proof (induction its arbitrary: m)
  case Nil
  show ?case by (simp add: podcast_episode_ids_Nil)
next
  case (Cons it its)
  show ?case
    by (cases "get_library_item srv s (item_id it)")
       (auto simp: Cons.IH podcast_episode_ids_Cons add_episodes_keys)
qed

lemma scan_podcast_libraries_keys:
  "scan_podcast_libraries entry srv s libs m = Inr M \<Longrightarrow>
   fst ` set M = fst ` set m \<union>
     {e. \<exists>lib \<in> set libs. \<exists>its. get_library_items srv s (lib_id lib) = Inr its
           \<and> e \<in> podcast_episode_ids srv s its}"
proof (induction libs arbitrary: m)
  case Nil
  then show ?case by auto
next
  case (Cons lib libs)
  from Cons.prems obtain items where
    items: "get_library_items srv s (lib_id lib) = Inr items"
    and rest: "scan_podcast_libraries entry srv s libs (scan_podcasts entry srv s items m) = Inr M"
    by (auto split: sum.splits)
  show ?case
    unfolding Cons.IH[OF rest] scan_podcasts_keys using items by auto
qed

lemma build_episode_map_keys:
  assumes "build_episode_map entry srv s = Inr M"
  shows "\<exists>libs. get_podcast_libraries srv s = Inr libs \<and>
     fst ` set M =
       {e. \<exists>lib \<in> set libs. \<exists>its. get_library_items srv s (lib_id lib) = Inr its
             \<and> e \<in> podcast_episode_ids srv s its}"
proof -
  from assms obtain libs where libs: "get_podcast_libraries srv s = Inr libs"
    and "scan_podcast_libraries entry srv s libs [] = Inr M"
    by (auto simp: build_episode_map_def split: sum.splits)
  then show ?thesis using scan_podcast_libraries_keys[of entry srv s libs "[]" M] by simp
qed

lemma add_episodes_distinct:
  "distinct (map fst m) \<Longrightarrow> distinct (map fst (add_episodes entry lid pt eps m))"
proof (induction eps arbitrary: m)
  case Nil
  then show ?case by simp
next
  case (Cons ep eps)
  then show ?case
    by (cases "truthy_str (ep_id ep)") (simp_all add: distinct_update)
qed

subsection \<open>The audiobook scan\<close>

lemma scan_audiobooks_inv:
  assumes good: "\<forall>lid full. not_kept srv s lid \<and> lid \<in> set F \<longrightarrow> P (lid, entry lid full)"
    and m: "\<forall>x \<in> set m. P x"
  shows "\<forall>x \<in> set (scan_audiobooks entry srv s F its m). P x"
  using m
proof (induction its arbitrary: m)
  case Nil
  then show ?case by simp
next
  case (Cons it its)
  let ?m' = "(if item_id it \<notin> set F then m
        else
          (case get_library_item srv s (item_id it) of
             Inl e \<Rightarrow> m
           | Inr full \<Rightarrow>
               if ''KEEP'' \<in> set (tags_of full) then m
               else AList.update (item_id it) (entry (item_id it) full) m))"
  have "\<forall>x \<in> set ?m'. P x"
  proof (cases "item_id it \<in> set F")
    case False
    then show ?thesis using Cons.prems by simp
  next
    case inF: True
    show ?thesis
    proof (cases "get_library_item srv s (item_id it)")
      case (Inl e)
      then show ?thesis using Cons.prems by simp
    next
      case (Inr full)
      show ?thesis
      proof (cases "''KEEP'' \<in> set (tags_of full)")
        case True
        then show ?thesis using Inr Cons.prems by simp
      next
        case False
        then have "not_kept srv s (item_id it)" using Inr by (simp add: not_kept_def)
        then have "P (item_id it, entry (item_id it) full)" using good inF by blast
        then show ?thesis using Inr False inF Cons.prems
          by (auto dest!: in_update_cases)
      qed
    qed
  qed
  then have "\<forall>x \<in> set (scan_audiobooks entry srv s F its ?m'). P x"
    by (rule Cons.IH)
  then show ?case by simp
qed

lemma scan_book_libraries_inv:
  assumes good: "\<forall>lid full. not_kept srv s lid \<and> lid \<in> set F \<longrightarrow> P (lid, entry lid full)"
    and m: "\<forall>x \<in> set m. P x"
    and res: "scan_book_libraries entry srv s F libs m = Inr M"
  shows "\<forall>x \<in> set M. P x"
  using m res
proof (induction libs arbitrary: m)
  case Nil
  then show ?case by simp
next
  case (Cons lib libs)
  from Cons.prems(2) obtain items where
    rest: "scan_book_libraries entry srv s F libs (scan_audiobooks entry srv s F items m) = Inr M"
    by (auto split: sum.splits)
  have "\<forall>x \<in> set (scan_audiobooks entry srv s F items m). P x"
    using good Cons.prems(1) by (rule scan_audiobooks_inv)
  then show ?case using rest by (rule Cons.IH)
qed

lemma build_audiobook_map_inv:
  assumes good: "\<forall>lid full. not_kept srv s lid \<and> lid \<in> set F \<longrightarrow> P (lid, entry lid full)"
    and res: "build_audiobook_map entry srv s F = Inr M"
  shows "\<forall>x \<in> set M. P x"
proof -
  from res obtain libs where "scan_book_libraries entry srv s F libs [] = Inr M"
    by (auto simp: build_audiobook_map_def split: sum.splits)
  then show ?thesis
    using scan_book_libraries_inv[where m = "[]" and P = P, OF good] by simp
qed

lemma build_audiobook_map_v4_not_kept:
  assumes "build_audiobook_map_v4 srv s F = Inr M"
  shows "\<forall>x \<in> set M. ab_library_item_id (snd x) = fst x \<and> fst x \<in> set F \<and> not_kept srv s (fst x)"
  using assms unfolding build_audiobook_map_v4_def
  by (rule build_audiobook_map_inv[rotated]) (simp add: audiobook_entry_v4_def)

lemma build_audiobook_map_v3_not_kept:
  assumes "build_audiobook_map_v3 srv s F = Inr M"
  shows "\<forall>x \<in> set M. ab_library_item_id (snd x) = fst x \<and> fst x \<in> set F \<and> not_kept srv s (fst x)"
  using assms unfolding build_audiobook_map_v3_def
  by (rule build_audiobook_map_inv[rotated]) (simp add: audiobook_entry_v3_def)

lemma scan_audiobooks_distinct:
  "distinct (map fst m) \<Longrightarrow> distinct (map fst (scan_audiobooks entry srv s F its m))"
proof (induction its arbitrary: m)
  case Nil
  then show ?case by simp
next
  case (Cons it its)
  then show ?case
    by (cases "get_library_item srv s (item_id it)") (simp_all add: distinct_update)
qed

lemma scan_book_libraries_distinct:
  "distinct (map fst m) \<Longrightarrow> scan_book_libraries entry srv s F libs m = Inr M \<Longrightarrow>
   distinct (map fst M)"
proof (induction libs arbitrary: m)
  case Nil
  then show ?case by simp
next
  case (Cons lib libs)
  from Cons.prems(2) obtain items where
    rest: "scan_book_libraries entry srv s F libs (scan_audiobooks entry srv s F items m) = Inr M"
    by (auto split: sum.splits)
  show ?case
    using Cons.IH[OF scan_audiobooks_distinct[OF Cons.prems(1)] rest] .
qed

lemma build_audiobook_map_distinct:
  "build_audiobook_map entry srv s F = Inr M \<Longrightarrow> distinct (map fst M)"
  using scan_book_libraries_distinct[of "[]" entry srv s F _ M]
  by (auto simp: build_audiobook_map_def split: sum.splits)

lemma scan_audiobooks_keys:
  "fst ` set (scan_audiobooks entry srv s F its m) =
     fst ` set m \<union> {l. l \<in> set F \<and> (\<exists>it \<in> set its. item_id it = l) \<and> not_kept srv s l}"
proof (induction its arbitrary: m)
  case Nil
  show ?case by simp
next
  case (Cons it its)
  show ?case
    by (cases "get_library_item srv s (item_id it)")
       (auto simp: Cons.IH dom_update not_kept_def)
qed

lemma scan_book_libraries_keys:
  "scan_book_libraries entry srv s F libs m = Inr M \<Longrightarrow>
   fst ` set M = fst ` set m \<union>
     {l. l \<in> set F \<and> not_kept srv s l \<and>
         (\<exists>lib \<in> set libs. \<exists>its. get_library_items srv s (lib_id lib) = Inr its
             \<and> (\<exists>it \<in> set its. item_id it = l))}"
proof (induction libs arbitrary: m)
  case Nil
  then show ?case by auto
next
  case (Cons lib libs)
  from Cons.prems obtain items where
    items: "get_library_items srv s (lib_id lib) = Inr items"
    and rest: "scan_book_libraries entry srv s F libs (scan_audiobooks entry srv s F items m) = Inr M"
    by (auto split: sum.splits)
  show ?case
    unfolding Cons.IH[OF rest] scan_audiobooks_keys using items
    by (auto simp del: image_eqI) blast+
qed

lemma build_audiobook_map_keys:
  assumes "build_audiobook_map entry srv s F = Inr M"
  shows "\<exists>libs. get_book_libraries srv s = Inr libs \<and>
     fst ` set M =
       {l. l \<in> set F \<and> not_kept srv s l \<and>
         (\<exists>lib \<in> set libs. \<exists>its. get_library_items srv s (lib_id lib) = Inr its
             \<and> (\<exists>it \<in> set its. item_id it = l))}"
proof -
  from assms obtain libs where libs: "get_book_libraries srv s = Inr libs"
    and "scan_book_libraries entry srv s F libs [] = Inr M"
    by (auto simp: build_audiobook_map_def split: sum.splits)
  then show ?thesis using scan_book_libraries_keys[of entry srv s F libs "[]" M] by simp
qed

subsection \<open>Candidate selection\<close>

lemma map_of_in_keys: "e \<in> fst ` set M \<Longrightarrow> map_of M e = Some (the (map_of M e))"
  by (cases "map_of M e") (auto simp: map_of_eq_None_iff)

lemma find_episodes_eq:
  "find_episodes M F acc =
     acc @ map (\<lambda>e. (e, the (map_of M e))) (filter (\<lambda>e. e \<in> fst ` set M) F)"
proof (induction F arbitrary: acc)
  case Nil
  show ?case by simp
next
  case (Cons e F)
  show ?case
  proof (cases "map_of M e")
    case None
    then have "e \<notin> fst ` set M" by (simp add: map_of_eq_None_iff)
    then show ?thesis using None by (simp add: Cons.IH)
  next
    case (Some v)
    then have "e \<in> fst ` set M" by (metis map_of_eq_None_iff option.distinct(1))
    then show ?thesis using Some by (simp add: Cons.IH)
  qed
qed

lemma find_episodes_v4_None:
  "find_episodes_v4 None now M F (acc, k) =
     (acc @ map (\<lambda>e. (e, the (map_of M e))) (filter (\<lambda>e. e \<in> fst ` set M) F), k)"
proof (induction F arbitrary: acc)
  case Nil
  show ?case by simp
next
  case (Cons e F)
  show ?case
  proof (cases "map_of M e")
    case None
    then have "e \<notin> fst ` set M" by (simp add: map_of_eq_None_iff)
    then show ?thesis using None by (simp add: Cons.IH)
  next
    case (Some v)
    then have "e \<in> fst ` set M" by (metis map_of_eq_None_iff option.distinct(1))
    then show ?thesis using Some by (simp add: Cons.IH)
  qed
qed

lemma find_episodes_v4_Some:
  "find_episodes_v4 (Some a) now M F (acc, k) =
     (acc @ map (\<lambda>e. (e, the (map_of M e))) (filter (episode_old_enough a now M) F),
      k + length (filter (episode_too_recent a now M) F))"
proof (induction F arbitrary: acc k)
  case Nil
  show ?case by simp
next
  case (Cons e F)
  show ?case
    by (cases "map_of M e")
       (simp_all add: Cons.IH episode_old_enough_def episode_too_recent_def)
qed

lemma update_fresh: "k \<notin> fst ` set al \<Longrightarrow> AList.update k v al = al @ [(k, v)]"
  by (induction al) auto

lemma filter_audiobooks_v4_eq:
  "distinct (map fst (acc @ M)) \<Longrightarrow>
   filter_audiobooks_v4 a now M (acc, k) =
     (acc @ filter (\<lambda>x. is_old_enough (ab_added_at (snd x)) now a) M,
      k + length (filter (\<lambda>x. \<not> is_old_enough (ab_added_at (snd x)) now a) M))"
proof (induction M arbitrary: acc k)
  case Nil
  show ?case by simp
next
  case (Cons x M)
  obtain l v where x: "x = (l, v)" by (cases x)
  have fresh: "l \<notin> fst ` set acc" using Cons.prems x by auto
  show ?case
  proof (cases "is_old_enough (ab_added_at v) now a")
    case True
    have "distinct (map fst ((acc @ [(l, v)]) @ M))" using Cons.prems x by auto
    from Cons.IH[OF this] show ?thesis using True x fresh by (simp add: update_fresh)
  next
    case False
    have "distinct (map fst (acc @ M))" using Cons.prems x by auto
    from Cons.IH[OF this] show ?thesis using False x by simp
  qed
qed

subsection \<open>The deletion loops\<close>

lemma delete_req_log: "snd (snd (delete_req srv w ep ps)) = snd w @ [Delete ep ps]"
  by (simp add: delete_req_def split: prod.splits)

lemma delete_episodes_dry:
  "delete_episodes srv True cands (w, d, f) = (w, d + length cands, f)"
  by (induction cands arbitrary: d) simp_all

lemma delete_audiobooks_dry:
  "delete_audiobooks srv True cands (w, d, f) = (w, d + length cands, f)"
  by (induction cands arbitrary: d) simp_all

lemma delete_episodes_step:
  "delete_episodes srv False (ep # eps) (w, d, f) =
     (case delete_episode srv w (library_item_id (snd ep)) (fst ep) True of
        (None, w') \<Rightarrow> delete_episodes srv False eps (w', d + 1, f)
      | (Some e, w') \<Rightarrow> delete_episodes srv False eps (w', d, f + 1))"
  by (simp split: prod.splits option.splits error.splits)

lemma delete_audiobooks_step:
  "delete_audiobooks srv False (ab # rest) (w, d, f) =
     (case delete_library_item srv w (ab_library_item_id ab) True of
        (None, w') \<Rightarrow> delete_audiobooks srv False rest (w', d + 1, f)
      | (Some e, w') \<Rightarrow> delete_audiobooks srv False rest (w', d, f + 1))"
  by (simp split: prod.splits option.splits error.splits)

lemma delete_episode_log:
  "snd (snd (delete_episode srv w l e True)) =
     snd w @ [Delete (episode_endpoint l e) [(''hard'', ''1'')]]"
  by (simp add: delete_episode_def delete_req_log)

lemma delete_library_item_log:
  "snd (snd (delete_library_item srv w l True)) =
     snd w @ [Delete (item_endpoint l) [(''hard'', ''1'')]]"
  by (simp add: delete_library_item_def delete_req_log)

lemma delete_episodes_log:
  "snd (fst (delete_episodes srv False cands (w, d, f))) =
     snd w @ map (\<lambda>ep. Delete (episode_endpoint (library_item_id (snd ep)) (fst ep))
                          [(''hard'', ''1'')]) cands"
proof (induction cands arbitrary: w d f)
  case Nil
  show ?case by simp
next
  case (Cons ep eps)
  obtain r w' where r: "delete_episode srv w (library_item_id (snd ep)) (fst ep) True = (r, w')"
    by (cases "delete_episode srv w (library_item_id (snd ep)) (fst ep) True")
  have "snd w' = snd w @ [Delete (episode_endpoint (library_item_id (snd ep)) (fst ep))
                          [(''hard'', ''1'')]]"
    using delete_episode_log[of srv w "library_item_id (snd ep)" "fst ep"] r by simp
  then show ?case
    unfolding delete_episodes_step r by (cases r) (simp_all add: Cons.IH)
qed

lemma delete_audiobooks_log:
  "snd (fst (delete_audiobooks srv False cands (w, d, f))) =
     snd w @ map (\<lambda>ab. Delete (item_endpoint (ab_library_item_id ab)) [(''hard'', ''1'')]) cands"
proof (induction cands arbitrary: w d f)
  case Nil
  show ?case by simp
next
  case (Cons ab rest)
  obtain r w' where r: "delete_library_item srv w (ab_library_item_id ab) True = (r, w')"
    by (cases "delete_library_item srv w (ab_library_item_id ab) True")
  have "snd w' = snd w @ [Delete (item_endpoint (ab_library_item_id ab)) [(''hard'', ''1'')]]"
    using delete_library_item_log[of srv w "ab_library_item_id ab"] r by simp
  then show ?case
    unfolding delete_audiobooks_step r by (cases r) (simp_all add: Cons.IH)
qed

lemma delete_episodes_counts:
  "fst (snd (delete_episodes srv dry cands (w, d, f)))
     + snd (snd (delete_episodes srv dry cands (w, d, f))) = d + f + length cands"
proof (cases dry)
  case True
  then show ?thesis by (simp add: delete_episodes_dry)
next
  case False
  have "fst (snd (delete_episodes srv False cands (w, d, f)))
     + snd (snd (delete_episodes srv False cands (w, d, f))) = d + f + length cands"
  proof (induction cands arbitrary: w d f)
    case Nil
    show ?case by simp
  next
    case (Cons ep eps)
    obtain r w' where r: "delete_episode srv w (library_item_id (snd ep)) (fst ep) True = (r, w')"
      by (cases "delete_episode srv w (library_item_id (snd ep)) (fst ep) True")
    show ?case
      unfolding delete_episodes_step r by (cases r) (simp_all add: Cons.IH)
  qed
  then show ?thesis using False by simp
qed

lemma delete_audiobooks_counts:
  "fst (snd (delete_audiobooks srv dry cands (w, d, f)))
     + snd (snd (delete_audiobooks srv dry cands (w, d, f))) = d + f + length cands"
proof (cases dry)
  case True
  then show ?thesis by (simp add: delete_audiobooks_dry)
next
  case False
  have "fst (snd (delete_audiobooks srv False cands (w, d, f)))
     + snd (snd (delete_audiobooks srv False cands (w, d, f))) = d + f + length cands"
  proof (induction cands arbitrary: w d f)
    case Nil
    show ?case by simp
  next
    case (Cons ab rest)
    obtain r w' where r: "delete_library_item srv w (ab_library_item_id ab) True = (r, w')"
      by (cases "delete_library_item srv w (ab_library_item_id ab) True")
    show ?case
      unfolding delete_audiobooks_step r by (cases r) (simp_all add: Cons.IH)
  qed
  then show ?thesis using False by simp
qed

section \<open>The claims about candidate selection\<close>

lemma demo_audiobook_map:
  "build_audiobook_map_v4 demo_server [] [''B1'', ''B2''] = Inr demo_audiobooks"
  by code_simp

lemma demo_episode_map:
  "build_episode_map_v4 demo_server [] = Inr demo_episodes"
  by code_simp

text \<open>
  C2. For every finished set \<open>F\<close> and every eligible-item map \<open>M\<close>, the candidate list
  that \<^verbatim>\<open>main\<close> computes before any age filtering holds exactly the identifiers of
  \<open>F\<close> that are keys of \<open>M\<close>, each with the map's value: in v2 and v3
  (\<open>find_episodes\<close>), in v4 with no age configured (\<open>find_episodes_v4 None\<close>, which
  skips nothing), and for the audiobooks of v4, where the map built from \<open>F\<close> is the
  candidate list itself.
\<close>

theorem candidates_are_intersection:
  "find_episodes M F [] = map (\<lambda>e. (e, the (map_of M e))) (filter (\<lambda>e. e \<in> fst ` set M) F)
   \<and> set (map fst (find_episodes M F [])) = set F \<inter> fst ` set M
   \<and> fst (find_episodes_v4 None now M4 F ([], k)) =
       map (\<lambda>e. (e, the (map_of M4 e))) (filter (\<lambda>e. e \<in> fst ` set M4) F)
   \<and> set (map fst (fst (find_episodes_v4 None now M4 F ([], k)))) = set F \<inter> fst ` set M4
   \<and> snd (find_episodes_v4 None now M4 F ([], k)) = k
   \<and> (build_audiobook_map_v4 srv s F = Inr A \<longrightarrow>
        audiobooks_to_delete_v4 None now A k = (A, k) \<and> fst ` set A = set F \<inter> fst ` set A)"
proof -
  have 1: "find_episodes M F [] =
      map (\<lambda>e. (e, the (map_of M e))) (filter (\<lambda>e. e \<in> fst ` set M) F)"
    by (simp add: find_episodes_eq)
  have 2: "set (map fst (find_episodes M F [])) = set F \<inter> fst ` set M"
    unfolding 1 by (auto simp: comp_def)
  have 3: "find_episodes_v4 None now M4 F ([], k) =
      (map (\<lambda>e. (e, the (map_of M4 e))) (filter (\<lambda>e. e \<in> fst ` set M4) F), k)"
    by (simp add: find_episodes_v4_None)
  have 4: "set (map fst (fst (find_episodes_v4 None now M4 F ([], k)))) = set F \<inter> fst ` set M4"
    unfolding 3 by (auto simp: comp_def)
  have 5: "audiobooks_to_delete_v4 None now A k = (A, k) \<and> fst ` set A = set F \<inter> fst ` set A"
    if "build_audiobook_map_v4 srv s F = Inr A"
    using build_audiobook_map_v4_not_kept[OF that]
    by (auto simp: audiobooks_to_delete_v4_def)
  show ?thesis using 1 2 3 4 5 by simp
qed

theorem candidates_are_intersection_witness:
  "build_audiobook_map_v4 demo_server [] [''B1'', ''B2''] = Inr demo_audiobooks
   \<and> audiobooks_to_delete_v4 None demo_now demo_audiobooks 0 = (demo_audiobooks, 0)
   \<and> fst ` set demo_audiobooks = set [''B1'', ''B2''] \<inter> fst ` set demo_audiobooks"
  using candidates_are_intersection [where srv = demo_server and s = "[]"
      and F = "[''B1'', ''B2'']" and now = demo_now and k = 0 and A = demo_audiobooks
      and M = demo_episodes and ?M4.0 = demo_episodes]
  by (simp add: demo_audiobook_map)




text \<open>
  C9. \<^verbatim>\<open>is_old_enough\<close> is true for an absent (or null) and for a zero timestamp,
  whatever the minimum age and the clock reading. With the age filter configured, a
  candidate with such a timestamp is selected for deletion, and the deletion loop of a
  real run sends the hard delete request for it.
\<close>

theorem falsy_added_at_is_old_enough:
  "is_old_enough None now A \<and> is_old_enough (Some 0) now A
   \<and> (e \<in> set F \<and> map_of M e = Some info \<and> (added_at info = None \<or> added_at info = Some 0) \<longrightarrow>
        (e, info) \<in> set (fst (find_episodes_v4 (Some A) now M F ([], k)))
        \<and> Delete (episode_endpoint (library_item_id info) e) [(''hard'', ''1'')]
            \<in> set (snd (fst (delete_episodes srv False
                                (fst (find_episodes_v4 (Some A) now M F ([], k))) (w, d, f)))))
   \<and> (distinct (map fst M') \<and> (l, ab) \<in> set M'
        \<and> (ab_added_at ab = None \<or> ab_added_at ab = Some 0) \<longrightarrow>
        (l, ab) \<in> set (fst (audiobooks_to_delete_v4 (Some A) now M' k))
        \<and> Delete (item_endpoint (ab_library_item_id ab)) [(''hard'', ''1'')]
            \<in> set (snd (fst (delete_audiobooks srv False
                                (map snd (fst (audiobooks_to_delete_v4 (Some A) now M' k)))
                                (w, d, f)))))"
proof -
  have old: "is_old_enough None now A" "is_old_enough (Some 0) now A"
    by (simp_all add: is_old_enough_def)
  have ep: "(e, info) \<in> set (fst (find_episodes_v4 (Some A) now M F ([], k)))
        \<and> Delete (episode_endpoint (library_item_id info) e) [(''hard'', ''1'')]
            \<in> set (snd (fst (delete_episodes srv False
                                (fst (find_episodes_v4 (Some A) now M F ([], k))) (w, d, f))))"
    if "e \<in> set F" "map_of M e = Some info" "added_at info = None \<or> added_at info = Some 0"
  proof -
    have "episode_old_enough A now M e"
      using that(2,3) old by (auto simp: episode_old_enough_def)
    then have sel: "(e, info) \<in> set (fst (find_episodes_v4 (Some A) now M F ([], k)))"
      using that(1) by (auto simp: find_episodes_v4_Some that(2) image_iff)
    then show ?thesis
      unfolding delete_episodes_log by force
  qed
  have ab: "(l, ab) \<in> set (fst (audiobooks_to_delete_v4 (Some A) now M' k))
        \<and> Delete (item_endpoint (ab_library_item_id ab)) [(''hard'', ''1'')]
            \<in> set (snd (fst (delete_audiobooks srv False
                                (map snd (fst (audiobooks_to_delete_v4 (Some A) now M' k)))
                                (w, d, f))))"
    if "distinct (map fst M')" "(l, ab) \<in> set M'"
      "ab_added_at ab = None \<or> ab_added_at ab = Some 0"
  proof -
    have "fst (audiobooks_to_delete_v4 (Some A) now M' k) =
        filter (\<lambda>x. is_old_enough (ab_added_at (snd x)) now A) M'"
      using filter_audiobooks_v4_eq[of "[]" M' A now k] that(1)
      by (simp add: audiobooks_to_delete_v4_def)
    then have sel: "(l, ab) \<in> set (fst (audiobooks_to_delete_v4 (Some A) now M' k))"
      using that(2,3) old by auto
    then show ?thesis
      unfolding delete_audiobooks_log by force
  qed
  show ?thesis using old ep ab by blast
qed

theorem falsy_added_at_is_old_enough_witness:
  "''e5'' \<in> set [''e1'', ''e2'', ''e5'']
   \<and> map_of demo_episodes ''e5'' =
       Some \<lparr>library_item_id = ''P1'', podcast_title = ''Pod'',
             episode_title = ''Five'', added_at = None\<rparr>
   \<and> (''e5'', \<lparr>library_item_id = ''P1'', podcast_title = ''Pod'',
                episode_title = ''Five'', added_at = None\<rparr>)
       \<in> set (fst (find_episodes_v4 (Some (timedelta_days 36500)) demo_now demo_episodes
                      [''e1'', ''e2'', ''e5''] ([], 0)))
   \<and> distinct (map fst [(''B'', \<lparr>ab_library_item_id = ''B'', audiobook_title = ''T'',
                author_name = ''A'', ab_added_at = Some 0\<rparr>)])
   \<and> (''B'', \<lparr>ab_library_item_id = ''B'', audiobook_title = ''T'',
                author_name = ''A'', ab_added_at = Some 0\<rparr>)
       \<in> set (fst (audiobooks_to_delete_v4 (Some (timedelta_days 36500)) demo_now
                 [(''B'', \<lparr>ab_library_item_id = ''B'', audiobook_title = ''T'',
                            author_name = ''A'', ab_added_at = Some 0\<rparr>)] 0))"
  using falsy_added_at_is_old_enough [where e = "''e5''" and F = "[''e1'', ''e2'', ''e5'']"
      and M = demo_episodes and A = "timedelta_days 36500"
      and now = demo_now and k = 0 and l = "''B''"
      and srv = demo_server and w = "([], [])" and d = 0 and f = 0
      and M' = "[(''B'', \<lparr>ab_library_item_id = ''B'', audiobook_title = ''T'',
                            author_name = ''A'', ab_added_at = Some 0\<rparr>)]"
      and info = "\<lparr>library_item_id = ''P1'', podcast_title = ''Pod'',
             episode_title = ''Five'', added_at = None\<rparr>"
      and ab = "\<lparr>ab_library_item_id = ''B'', audiobook_title = ''T'',
                author_name = ''A'', ab_added_at = Some 0\<rparr>"]
  by (simp add: demo_episodes_def)

section \<open>The blocks of main\<close>

lemma key_entry_in: "e \<in> fst ` set M \<Longrightarrow> (e, the (map_of M e)) \<in> set M"
  using map_of_in_keys[of e M] map_of_SomeD[of M e "the (map_of M e)"] by simp

lemma find_episodes_subset: "set (find_episodes M F []) \<subseteq> set M"
  by (auto simp: find_episodes_eq intro: key_entry_in)

lemma find_episodes_v4_subset: "set (fst (find_episodes_v4 age now M F ([], k))) \<subseteq> set M"
proof (cases age)
  case None
  then show ?thesis
    by (auto simp: find_episodes_v4_None intro: key_entry_in)
next
  case (Some a)
  have "map_of M e = Some (the (map_of M e))" if "episode_old_enough a now M e" for e
    using that by (cases "map_of M e") (simp_all add: episode_old_enough_def)
  then show ?thesis using Some
    by (auto simp: find_episodes_v4_Some dest: map_of_SomeD)
qed

lemma filter_audiobooks_v4_subset:
  "set (fst (filter_audiobooks_v4 a now M (acc, k))) \<subseteq> set acc \<union> set M"
proof (induction M arbitrary: acc k)
  case Nil
  show ?case by simp
next
  case (Cons x M)
  obtain l v where x: "x = (l, v)" by (cases x)
  show ?case
  proof (cases "is_old_enough (ab_added_at v) now a")
    case True
    have "set (AList.update l v acc) \<subseteq> insert (l, v) (set acc)"
      by (auto dest: in_update_cases)
    then show ?thesis
      using Cons.IH[of "AList.update l v acc" k] True x by auto
  next
    case False
    then show ?thesis using Cons.IH[of acc "k + 1"] x by auto
  qed
qed

lemma audiobooks_to_delete_v4_subset:
  "set (fst (audiobooks_to_delete_v4 age now M k)) \<subseteq> set M"
  using filter_audiobooks_v4_subset[of _ now M "[]" k]
  by (cases age) (simp_all add: audiobooks_to_delete_v4_def)

lemma delete_episodes_summary:
  assumes "delete_episodes srv dry cands (w, d, f) = (w', d', f')"
  shows "d' + f' = d + f + length cands
    \<and> (if dry then w' = w \<and> f' = f
       else snd w' = snd w @ map (\<lambda>ep. Delete (episode_endpoint (library_item_id (snd ep)) (fst ep))
                                         [(''hard'', ''1'')]) cands)"
  using assms delete_episodes_counts[of srv dry cands w d f]
    delete_episodes_log[of srv cands w d f] delete_episodes_dry[of srv cands w d f]
  by (cases dry) auto

lemma delete_audiobooks_summary:
  assumes "delete_audiobooks srv dry cands (w, d, f) = (w', d', f')"
  shows "d' + f' = d + f + length cands
    \<and> (if dry then w' = w \<and> f' = f
       else snd w' = snd w @ map (\<lambda>ab. Delete (item_endpoint (ab_library_item_id ab))
                                         [(''hard'', ''1'')]) cands)"
  using assms delete_audiobooks_counts[of srv dry cands w d f]
    delete_audiobooks_log[of srv cands w d f] delete_audiobooks_dry[of srv cands w d f]
  by (cases dry) auto

lemma podcast_block_v4_summary:
  assumes "podcast_block_v4 srv cfg now fe ((w, d, f), k) = Inr ((w', d', f'), k')"
  shows "\<exists>cands :: (string \<times> ep_info4) list. (\<forall>c \<in> set cands. not_kept srv (fst w) (library_item_id (snd c)))
    \<and> d' + f' = d + f + length cands
    \<and> (if dry_run cfg then w' = w \<and> f' = f
       else snd w' = snd w @ map (\<lambda>ep. Delete (episode_endpoint (library_item_id (snd ep)) (fst ep))
                                         [(''hard'', ''1'')]) cands)"
proof (cases "process_podcasts cfg \<and> fe \<noteq> []")
  case False
  then have "w' = w" "d' = d" "f' = f" using assms by (auto simp: podcast_block_v4_def)
  then show ?thesis by - (rule exI[of _ "[]"], simp)
next
  case True
  then obtain M where M: "build_episode_map_v4 srv (fst w) = Inr M"
    and res: "delete_episodes srv (dry_run cfg)
                (fst (find_episodes_v4 (min_age cfg) now M fe ([], k))) (w, d, f) = (w', d', f')"
    using assms by (auto simp: podcast_block_v4_def split: sum.splits prod.splits)
  let ?cands = "fst (find_episodes_v4 (min_age cfg) now M fe ([], k))"
  have "\<forall>c \<in> set ?cands. not_kept srv (fst w) (library_item_id (snd c))"
    using build_episode_map_v4_not_kept[OF M] find_episodes_v4_subset[of "min_age cfg" now M fe k]
    by blast
  then show ?thesis using delete_episodes_summary[OF res]
    by - (rule exI[of _ ?cands], simp)
qed

lemma audiobook_block_v4_summary:
  assumes "audiobook_block_v4 srv cfg now fa ((w, d, f), k) = Inr ((w', d', f'), k')"
  shows "\<exists>cands :: ab_info4 list. (\<forall>c \<in> set cands. not_kept srv (fst w) (ab_library_item_id c))
    \<and> d' + f' = d + f + length cands
    \<and> (if dry_run cfg then w' = w \<and> f' = f
       else snd w' = snd w @ map (\<lambda>ab. Delete (item_endpoint (ab_library_item_id ab))
                                         [(''hard'', ''1'')]) cands)"
proof (cases "process_audiobooks cfg \<and> fa \<noteq> []")
  case False
  then have "w' = w" "d' = d" "f' = f" using assms by (auto simp: audiobook_block_v4_def)
  then show ?thesis by - (rule exI[of _ "[]"], simp)
next
  case True
  then obtain M where M: "build_audiobook_map_v4 srv (fst w) fa = Inr M"
    and res: "delete_audiobooks srv (dry_run cfg)
                (map snd (fst (audiobooks_to_delete_v4 (min_age cfg) now M k))) (w, d, f) = (w', d', f')"
    using assms by (auto simp: audiobook_block_v4_def split: sum.splits prod.splits)
  let ?cands = "map snd (fst (audiobooks_to_delete_v4 (min_age cfg) now M k))"
  have "\<forall>c \<in> set ?cands. not_kept srv (fst w) (ab_library_item_id c)"
    using build_audiobook_map_v4_not_kept[OF M] audiobooks_to_delete_v4_subset[of "min_age cfg" now M k]
    by fastforce
  then show ?thesis using delete_audiobooks_summary[OF res]
    by - (rule exI[of _ ?cands], simp)
qed

lemma podcast_block_v3_summary:
  assumes "podcast_block_v3 srv cfg fe (w, d, f) = Inr (w', d', f')"
  shows "\<exists>cands :: (string \<times> ep_info) list. (\<forall>c \<in> set cands. not_kept srv (fst w) (library_item_id (snd c)))
    \<and> d' + f' = d + f + length cands
    \<and> (if dry_run cfg then w' = w \<and> f' = f
       else snd w' = snd w @ map (\<lambda>ep. Delete (episode_endpoint (library_item_id (snd ep)) (fst ep))
                                         [(''hard'', ''1'')]) cands)"
proof (cases "process_podcasts cfg \<and> fe \<noteq> []")
  case False
  then have "w' = w" "d' = d" "f' = f" using assms by (auto simp: podcast_block_v3_def)
  then show ?thesis by - (rule exI[of _ "[]"], simp)
next
  case True
  then obtain M where M: "build_episode_map_v3 srv (fst w) = Inr M"
    and res: "delete_episodes srv (dry_run cfg) (find_episodes M fe []) (w, d, f) = (w', d', f')"
    using assms by (auto simp: podcast_block_v3_def split: sum.splits)
  let ?cands = "find_episodes M fe []"
  have "\<forall>c \<in> set ?cands. not_kept srv (fst w) (library_item_id (snd c))"
    using build_episode_map_v3_not_kept[OF M] find_episodes_subset[of M fe]
    by blast
  then show ?thesis using delete_episodes_summary[OF res]
    by - (rule exI[of _ ?cands], simp)
qed

lemma audiobook_block_v3_summary:
  assumes "audiobook_block_v3 srv cfg fa (w, d, f) = Inr (w', d', f')"
  shows "\<exists>cands :: ab_info list. (\<forall>c \<in> set cands. not_kept srv (fst w) (ab_library_item_id c))
    \<and> d' + f' = d + f + length cands
    \<and> (if dry_run cfg then w' = w \<and> f' = f
       else snd w' = snd w @ map (\<lambda>ab. Delete (item_endpoint (ab_library_item_id ab))
                                         [(''hard'', ''1'')]) cands)"
proof (cases "process_audiobooks cfg \<and> fa \<noteq> []")
  case False
  then have "w' = w" "d' = d" "f' = f" using assms by (auto simp: audiobook_block_v3_def)
  then show ?thesis by - (rule exI[of _ "[]"], simp)
next
  case True
  then obtain M where M: "build_audiobook_map_v3 srv (fst w) fa = Inr M"
    and res: "delete_audiobooks srv (dry_run cfg) (map snd M) (w, d, f) = (w', d', f')"
    using assms by (auto simp: audiobook_block_v3_def split: sum.splits)
  let ?cands = "map snd M"
  have "\<forall>c \<in> set ?cands. not_kept srv (fst w) (ab_library_item_id c)"
    using build_audiobook_map_v3_not_kept[OF M] by fastforce
  then show ?thesis using delete_audiobooks_summary[OF res]
    by - (rule exI[of _ ?cands], simp)
qed

text \<open>What a run that reaches the summary went through.\<close>

lemma main_v4_Inr:
  assumes "main_v4 srv cfg now s0 = (Inr (d, f, k), w)"
  shows "\<exists>u st1. get_user_with_progress srv s0 = Inr u
    \<and> podcast_block_v4 srv cfg now (fst (get_finished_media u)) (((s0, []), 0, 0), 0) = Inr st1
    \<and> audiobook_block_v4 srv cfg now (snd (get_finished_media u)) st1 = Inr ((w, d, f), k)"
  using assms
  by (auto simp: main_v4_def split: sum.splits error.splits prod.splits)

lemma main_v4_world_cases:
  "snd (main_v4 srv cfg now s0) = (s0, [])
   \<or> (\<exists>u st1. get_user_with_progress srv s0 = Inr u
        \<and> podcast_block_v4 srv cfg now (fst (get_finished_media u)) (((s0, []), 0, 0), 0) = Inr st1
        \<and> (snd (main_v4 srv cfg now s0) = fst (fst st1)
            \<or> (\<exists>st2. audiobook_block_v4 srv cfg now (snd (get_finished_media u)) st1 = Inr st2
                  \<and> snd (main_v4 srv cfg now s0) = fst (fst st2))))"
  by (auto simp: main_v4_def split: sum.splits error.splits prod.splits)

section \<open>Whole runs\<close>

lemma podcast_block_v4_hard:
  assumes "podcast_block_v4 srv cfg now fe ((w, d, f), k) = Inr ((w', d', f'), k')"
    and "\<forall>r \<in> set (snd w). \<exists>endpoint. r = Delete endpoint [(''hard'', ''1'')]"
  shows "\<forall>r \<in> set (snd w'). \<exists>endpoint. r = Delete endpoint [(''hard'', ''1'')]"
  using podcast_block_v4_summary[OF assms(1)] assms(2)
  by (cases "dry_run cfg") auto

lemma audiobook_block_v4_hard:
  assumes "audiobook_block_v4 srv cfg now fa ((w, d, f), k) = Inr ((w', d', f'), k')"
    and "\<forall>r \<in> set (snd w). \<exists>endpoint. r = Delete endpoint [(''hard'', ''1'')]"
  shows "\<forall>r \<in> set (snd w'). \<exists>endpoint. r = Delete endpoint [(''hard'', ''1'')]"
  using audiobook_block_v4_summary[OF assms(1)] assms(2)
  by (cases "dry_run cfg") auto

lemma podcast_block_v3_hard:
  assumes "podcast_block_v3 srv cfg fe (w, d, f) = Inr (w', d', f')"
    and "\<forall>r \<in> set (snd w). \<exists>endpoint. r = Delete endpoint [(''hard'', ''1'')]"
  shows "\<forall>r \<in> set (snd w'). \<exists>endpoint. r = Delete endpoint [(''hard'', ''1'')]"
  using podcast_block_v3_summary[OF assms(1)] assms(2)
  by (cases "dry_run cfg") auto

lemma audiobook_block_v3_hard:
  assumes "audiobook_block_v3 srv cfg fa (w, d, f) = Inr (w', d', f')"
    and "\<forall>r \<in> set (snd w). \<exists>endpoint. r = Delete endpoint [(''hard'', ''1'')]"
  shows "\<forall>r \<in> set (snd w'). \<exists>endpoint. r = Delete endpoint [(''hard'', ''1'')]"
  using audiobook_block_v3_summary[OF assms(1)] assms(2)
  by (cases "dry_run cfg") auto

lemma main_v3_world_cases:
  "snd (main_v3 srv cfg s0) = (s0, [])
   \<or> (\<exists>u st1. get_user_with_progress srv s0 = Inr u
        \<and> podcast_block_v3 srv cfg (fst (get_finished_media u)) ((s0, []), 0, 0) = Inr st1
        \<and> (snd (main_v3 srv cfg s0) = fst st1
            \<or> (\<exists>st2. audiobook_block_v3 srv cfg (snd (get_finished_media u)) st1 = Inr st2
                  \<and> snd (main_v3 srv cfg s0) = fst st2)))"
  by (auto simp: main_v3_def split: sum.splits error.splits prod.splits)

lemma main_v2_world_cases:
  "snd (main_v2 srv dry s0) = (s0, [])
   \<or> (\<exists>u M. get_user_with_progress srv s0 = Inr u \<and> build_episode_map_v3 srv s0 = Inr M
         \<and> snd (main_v2 srv dry s0) =
             fst (delete_episodes srv dry (find_episodes M (get_finished_episode_ids u) [])
                    ((s0, []), 0, 0)))"
  by (auto simp: main_v2_def Let_def split: sum.splits error.splits prod.splits)

lemma main_v4_hard:
  "\<forall>r \<in> set (snd (snd (main_v4 srv cfg now s0))). \<exists>endpoint. r = Delete endpoint [(''hard'', ''1'')]"
proof -
  let ?H = "\<lambda>w :: 's world. \<forall>r \<in> set (snd w). \<exists>endpoint. r = Delete endpoint [(''hard'', ''1'')]"
  consider (a) "snd (main_v4 srv cfg now s0) = (s0, [])"
    | (b) u st1 where
        "podcast_block_v4 srv cfg now (fst (get_finished_media u)) (((s0, []), 0, 0), 0) = Inr st1"
        "snd (main_v4 srv cfg now s0) = fst (fst st1)"
    | (c) u st1 st2 where
        "podcast_block_v4 srv cfg now (fst (get_finished_media u)) (((s0, []), 0, 0), 0) = Inr st1"
        "audiobook_block_v4 srv cfg now (snd (get_finished_media u)) st1 = Inr st2"
        "snd (main_v4 srv cfg now s0) = fst (fst st2)"
    using main_v4_world_cases[of srv cfg now s0] by blast
  then show ?thesis
  proof cases
    case a
    then show ?thesis by simp
  next
    case b
    obtain w1 d1 f1 k1 where st1: "st1 = ((w1, d1, f1), k1)" by (cases st1) auto
    have "?H w1" using podcast_block_v4_hard[OF b(1)[unfolded st1]] by simp
    then show ?thesis using b(2) st1 by simp
  next
    case c
    obtain w1 d1 f1 k1 where st1: "st1 = ((w1, d1, f1), k1)" by (cases st1) auto
    obtain w2 d2 f2 k2 where st2: "st2 = ((w2, d2, f2), k2)" by (cases st2) auto
    have "?H w1" using podcast_block_v4_hard[OF c(1)[unfolded st1]] by simp
    then have "?H w2" using audiobook_block_v4_hard[OF c(2)[unfolded st1 st2]] by simp
    then show ?thesis using c(3) st2 by simp
  qed
qed

lemma main_v3_hard:
  "\<forall>r \<in> set (snd (snd (main_v3 srv cfg s0))). \<exists>endpoint. r = Delete endpoint [(''hard'', ''1'')]"
proof -
  let ?H = "\<lambda>w :: 's world. \<forall>r \<in> set (snd w). \<exists>endpoint. r = Delete endpoint [(''hard'', ''1'')]"
  consider (a) "snd (main_v3 srv cfg s0) = (s0, [])"
    | (b) u st1 where
        "podcast_block_v3 srv cfg (fst (get_finished_media u)) ((s0, []), 0, 0) = Inr st1"
        "snd (main_v3 srv cfg s0) = fst st1"
    | (c) u st1 st2 where
        "podcast_block_v3 srv cfg (fst (get_finished_media u)) ((s0, []), 0, 0) = Inr st1"
        "audiobook_block_v3 srv cfg (snd (get_finished_media u)) st1 = Inr st2"
        "snd (main_v3 srv cfg s0) = fst st2"
    using main_v3_world_cases[of srv cfg s0] by blast
  then show ?thesis
  proof cases
    case a
    then show ?thesis by simp
  next
    case b
    obtain w1 d1 f1 where st1: "st1 = (w1, d1, f1)" by (cases st1) auto
    have "?H w1" using podcast_block_v3_hard[OF b(1)[unfolded st1]] by simp
    then show ?thesis using b(2) st1 by simp
  next
    case c
    obtain w1 d1 f1 where st1: "st1 = (w1, d1, f1)" by (cases st1) auto
    obtain w2 d2 f2 where st2: "st2 = (w2, d2, f2)" by (cases st2) auto
    have "?H w1" using podcast_block_v3_hard[OF c(1)[unfolded st1]] by simp
    then have "?H w2" using audiobook_block_v3_hard[OF c(2)[unfolded st1 st2]] by simp
    then show ?thesis using c(3) st2 by simp
  qed
qed

lemma main_v2_hard:
  "\<forall>r \<in> set (snd (snd (main_v2 srv dry s0))). \<exists>endpoint. r = Delete endpoint [(''hard'', ''1'')]"
proof -
  consider (a) "snd (main_v2 srv dry s0) = (s0, [])"
    | (b) cands :: "(string \<times> ep_info) list" where
        "snd (main_v2 srv dry s0) = fst (delete_episodes srv dry cands ((s0, []), 0, 0))"
    using main_v2_world_cases[of srv dry s0] by blast
  then show ?thesis
  proof cases
    case a
    then show ?thesis by simp
  next
    case b
    obtain w' d' f' where r: "delete_episodes srv dry cands ((s0, []), 0, 0) = (w', d', f')"
      by (cases "delete_episodes srv dry cands ((s0, []), 0, 0)") auto
    show ?thesis using delete_episodes_summary[OF r] b r by (cases dry) auto
  qed
qed


lemma main_v4_dry:
  assumes "dry_run cfg"
  shows "snd (main_v4 srv cfg now s0) = (s0, [])"
proof -
  consider (a) "snd (main_v4 srv cfg now s0) = (s0, [])"
    | (b) u st1 where
        "podcast_block_v4 srv cfg now (fst (get_finished_media u)) (((s0, []), 0, 0), 0) = Inr st1"
        "snd (main_v4 srv cfg now s0) = fst (fst st1)"
    | (c) u st1 st2 where
        "podcast_block_v4 srv cfg now (fst (get_finished_media u)) (((s0, []), 0, 0), 0) = Inr st1"
        "audiobook_block_v4 srv cfg now (snd (get_finished_media u)) st1 = Inr st2"
        "snd (main_v4 srv cfg now s0) = fst (fst st2)"
    using main_v4_world_cases[of srv cfg now s0] by blast
  then show ?thesis
  proof cases
    case a
    then show ?thesis .
  next
    case b
    obtain w1 d1 f1 k1 where st1: "st1 = ((w1, d1, f1), k1)" by (cases st1) auto
    have "w1 = (s0, [])" using podcast_block_v4_summary[OF b(1)[unfolded st1]] assms by auto
    then show ?thesis using b(2) st1 by simp
  next
    case c
    obtain w1 d1 f1 k1 where st1: "st1 = ((w1, d1, f1), k1)" by (cases st1) auto
    obtain w2 d2 f2 k2 where st2: "st2 = ((w2, d2, f2), k2)" by (cases st2) auto
    have "w1 = (s0, [])" using podcast_block_v4_summary[OF c(1)[unfolded st1]] assms by auto
    moreover have "w2 = w1" using audiobook_block_v4_summary[OF c(2)[unfolded st1 st2]] assms by auto
    ultimately show ?thesis using c(3) st2 by simp
  qed
qed

lemma main_v4_dry_failed:
  assumes "main_v4 srv cfg now s0 = (Inr (d, f, k), w)" "dry_run cfg"
  shows "f = 0"
proof -
  from main_v4_Inr[OF assms(1)] obtain u st1 where
    b1: "podcast_block_v4 srv cfg now (fst (get_finished_media u)) (((s0, []), 0, 0), 0) = Inr st1"
    and b2: "audiobook_block_v4 srv cfg now (snd (get_finished_media u)) st1 = Inr ((w, d, f), k)"
    by blast
  obtain w1 d1 f1 k1 where st1: "st1 = ((w1, d1, f1), k1)" by (cases st1) auto
  have "f1 = 0"
    using podcast_block_v4_summary[OF b1[unfolded st1]] assms(2) by auto
  then show ?thesis
    using audiobook_block_v4_summary[OF b2[unfolded st1]] assms(2) by auto
qed

subsection \<open>Runs that reach the summary\<close>








section \<open>The claims about deletion\<close>

lemma demo_run:
  "main_v4 demo_server
     \<lparr>dry_run = False, media_type = EVERYTHING, min_age = Some (timedelta_days 30)\<rparr> demo_now [] =
   (Inr (2, 1, 1),
    [''/api/podcasts/P1/episode/e1'', ''/api/items/B1''],
    [Delete ''/api/podcasts/P1/episode/e1'' [(''hard'', ''1'')],
     Delete ''/api/podcasts/P1/episode/e5'' [(''hard'', ''1'')],
     Delete ''/api/items/B1'' [(''hard'', ''1'')]])"
  by code_simp

lemma demo_dry_run:
  "main_v4 demo_server
     \<lparr>dry_run = True, media_type = EVERYTHING, min_age = Some (timedelta_days 30)\<rparr> demo_now [] =
   (Inr (3, 0, 1), [], [])"
  by code_simp





text \<open>
  C7. Every deletion is a hard delete. Each deletion loop calls the client with
  \<^verbatim>\<open>hard_delete=True\<close> for every candidate, so the request it sends carries the
  parameter \<^verbatim>\<open>hard=1\<close>; and every DELETE request a run of v4, v3 or v2 sends carries
  exactly that parameter.
\<close>

theorem every_deletion_is_hard:
  "snd (fst (delete_episodes srv False eps (w, d, f))) =
       snd w @ map (\<lambda>ep. Delete (episode_endpoint (library_item_id (snd ep)) (fst ep))
                            [(''hard'', ''1'')]) eps
   \<and> snd (fst (delete_audiobooks srv False abks (w, d, f))) =
       snd w @ map (\<lambda>ab. Delete (item_endpoint (ab_library_item_id ab)) [(''hard'', ''1'')]) abks
   \<and> (\<forall>r \<in> set (snd (snd (main_v4 srv cfg4 now s0))).
         \<exists>endpoint. r = Delete endpoint [(''hard'', ''1'')])
   \<and> (\<forall>r \<in> set (snd (snd (main_v3 srv cfg3 s0))).
         \<exists>endpoint. r = Delete endpoint [(''hard'', ''1'')])
   \<and> (\<forall>r \<in> set (snd (snd (main_v2 srv dry s0))).
         \<exists>endpoint. r = Delete endpoint [(''hard'', ''1'')])"
  using delete_episodes_log[of srv eps w d f] delete_audiobooks_log[of srv abks w d f]
    main_v4_hard[of srv cfg4 now s0] main_v3_hard[of srv cfg3 s0] main_v2_hard[of srv dry s0]
  by blast

lemma demo_run_v3:
  "main_v3 demo_server \<lparr>dry_run = False, media_type = EVERYTHING\<rparr> [] =
   (Inr (3, 1),
    [''/api/podcasts/P1/episode/e1'', ''/api/podcasts/P1/episode/e2'', ''/api/items/B1''],
    [Delete ''/api/podcasts/P1/episode/e1'' [(''hard'', ''1'')],
     Delete ''/api/podcasts/P1/episode/e2'' [(''hard'', ''1'')],
     Delete ''/api/podcasts/P1/episode/e5'' [(''hard'', ''1'')],
     Delete ''/api/items/B1'' [(''hard'', ''1'')]])"
  by code_simp

lemma demo_run_v2:
  "main_v2 demo_server False [] =
   (Inr (Some (2, 1)),
    [''/api/podcasts/P1/episode/e1'', ''/api/podcasts/P1/episode/e2''],
    [Delete ''/api/podcasts/P1/episode/e1'' [(''hard'', ''1'')],
     Delete ''/api/podcasts/P1/episode/e2'' [(''hard'', ''1'')],
     Delete ''/api/podcasts/P1/episode/e5'' [(''hard'', ''1'')]])"
  by code_simp

theorem every_deletion_is_hard_witness:
  "snd (snd (main_v4 demo_server
     \<lparr>dry_run = False, media_type = EVERYTHING, min_age = Some (timedelta_days 30)\<rparr> demo_now [])) =
    [Delete ''/api/podcasts/P1/episode/e1'' [(''hard'', ''1'')],
     Delete ''/api/podcasts/P1/episode/e5'' [(''hard'', ''1'')],
     Delete ''/api/items/B1'' [(''hard'', ''1'')]]
   \<and> snd (snd (main_v3 demo_server \<lparr>dry_run = False, media_type = EVERYTHING\<rparr> [])) =
    [Delete ''/api/podcasts/P1/episode/e1'' [(''hard'', ''1'')],
     Delete ''/api/podcasts/P1/episode/e2'' [(''hard'', ''1'')],
     Delete ''/api/podcasts/P1/episode/e5'' [(''hard'', ''1'')],
     Delete ''/api/items/B1'' [(''hard'', ''1'')]]
   \<and> snd (snd (main_v2 demo_server False [])) =
    [Delete ''/api/podcasts/P1/episode/e1'' [(''hard'', ''1'')],
     Delete ''/api/podcasts/P1/episode/e2'' [(''hard'', ''1'')],
     Delete ''/api/podcasts/P1/episode/e5'' [(''hard'', ''1'')]]"
  using every_deletion_is_hard [where srv = demo_server
      and ?cfg4.0 = "\<lparr>dry_run = False, media_type = EVERYTHING, min_age = Some (timedelta_days 30)\<rparr>"
      and ?cfg3.0 = "\<lparr>dry_run = False, media_type = EVERYTHING\<rparr>"
      and now = demo_now and ?s0.0 = "[]" and dry = False
      and eps = "[] :: (string \<times> ep_info) list" and abks = "[] :: ab_info list"
      and w = "([], [])" and d = 0 and f = 0]
  by (simp add: demo_run demo_run_v3 demo_run_v2)

section \<open>Dry runs and protected items\<close>

lemma demo_podcast_block:
  "podcast_block_v4 demo_server (demo_config False) demo_now [''e1'', ''e2'', ''e3'', ''e5'']
     ((([], []), 0, 0), 0) =
   Inr ((([''/api/podcasts/P1/episode/e1''],
          [Delete ''/api/podcasts/P1/episode/e1'' [(''hard'', ''1'')],
           Delete ''/api/podcasts/P1/episode/e5'' [(''hard'', ''1'')]]), 1, 1), 1)"
  by code_simp

lemma demo_audiobook_block:
  "audiobook_block_v4 demo_server (demo_config False) demo_now [''B1'', ''B2'']
     ((([], []), 0, 0), 0) =
   Inr ((([''/api/items/B1''], [Delete ''/api/items/B1'' [(''hard'', ''1'')]]), 1, 0), 0)"
  by code_simp

lemma demo_podcast_block_dry:
  "podcast_block_v4 demo_server (demo_config True) demo_now [''e1'', ''e2'', ''e3'', ''e5'']
     ((([], []), 0, 0), 0) = Inr ((([], []), 2, 0), 1)"
  by code_simp

lemma demo_audiobook_block_dry:
  "audiobook_block_v4 demo_server (demo_config True) demo_now [''B1'', ''B2'']
     ((([], []), 0, 0), 0) = Inr ((([], []), 1, 0), 0)"
  by code_simp

lemma demo_dry_run_config:
  "main_v4 demo_server (demo_config True) demo_now [] = (Inr (3, 0, 1), [], [])"
  by code_simp

lemma demo_episode_map_v3: "build_episode_map_v3 demo_server [] = Inr demo_episodes_v3"
  by code_simp

lemma demo_audiobook_map_v3:
  "build_audiobook_map_v3 demo_server [] [''B1'', ''B2''] = Inr demo_audiobooks_v3"
  by code_simp

lemma demo_kept_item: "get_library_item demo_server [] ''P2'' = Inr demo_kept"
  by code_simp

lemma podcast_block_v4_dry:
  assumes "dry_run cfg" "process_podcasts cfg" "fe \<noteq> []"
    "build_episode_map_v4 srv (fst w) = Inr M"
  shows "podcast_block_v4 srv cfg now fe ((w, d, f), k) =
     Inr ((w, d + length (fst (find_episodes_v4 (min_age cfg) now M fe ([], k))), f),
          snd (find_episodes_v4 (min_age cfg) now M fe ([], k)))"
  using assms by (simp add: podcast_block_v4_def case_prod_beta delete_episodes_dry)

lemma audiobook_block_v4_dry:
  assumes "dry_run cfg" "process_audiobooks cfg" "fa \<noteq> []"
    "build_audiobook_map_v4 srv (fst w) fa = Inr A"
  shows "audiobook_block_v4 srv cfg now fa ((w, d, f), k) =
     Inr ((w, d + length (fst (audiobooks_to_delete_v4 (min_age cfg) now A k)), f),
          snd (audiobooks_to_delete_v4 (min_age cfg) now A k))"
  using assms by (simp add: audiobook_block_v4_def case_prod_beta delete_audiobooks_dry)

text \<open>
  C10. With DRY_RUN enabled no deletion request is sent: each deletion loop leaves the
  world as it is and adds the number of its candidates to the deleted counter, which is
  the number of requests the same loop sends in a real run. A dry run of v4 ends with
  the server state it started from and an empty list of requests, reports no failure,
  and each block adds the length of its candidate list to the deleted counter.
\<close>

theorem dry_run_sends_nothing:
  "delete_episodes srv True eps (w, d, f) = (w, d + length eps, f)
   \<and> delete_audiobooks srv True abks (w, d, f) = (w, d + length abks, f)
   \<and> length (snd (fst (delete_episodes srv False eps (w, d, f)))) = length (snd w) + length eps
   \<and> length (snd (fst (delete_audiobooks srv False abks (w, d, f)))) = length (snd w) + length abks
   \<and> (dry_run cfg \<longrightarrow> snd (main_v4 srv cfg now s0) = (s0, []))
   \<and> (dry_run cfg \<and> main_v4 srv cfg now s0 = (Inr (td, tf, tk), w1) \<longrightarrow> tf = 0)
   \<and> (dry_run cfg \<and> process_podcasts cfg \<and> fe \<noteq> []
        \<and> build_episode_map_v4 srv (fst w) = Inr M \<longrightarrow>
        podcast_block_v4 srv cfg now fe ((w, d, f), k) =
          Inr ((w, d + length (fst (find_episodes_v4 (min_age cfg) now M fe ([], k))), f),
               snd (find_episodes_v4 (min_age cfg) now M fe ([], k))))
   \<and> (dry_run cfg \<and> process_audiobooks cfg \<and> fa \<noteq> []
        \<and> build_audiobook_map_v4 srv (fst w) fa = Inr A \<longrightarrow>
        audiobook_block_v4 srv cfg now fa ((w, d, f), k) =
          Inr ((w, d + length (fst (audiobooks_to_delete_v4 (min_age cfg) now A k)), f),
               snd (audiobooks_to_delete_v4 (min_age cfg) now A k)))"
  using delete_episodes_dry[of srv eps w d f] delete_audiobooks_dry[of srv abks w d f]
    delete_episodes_log[of srv eps w d f] delete_audiobooks_log[of srv abks w d f]
    main_v4_dry[of cfg srv now s0] main_v4_dry_failed[of srv cfg now s0 td tf tk w1]
    podcast_block_v4_dry[of cfg fe srv w M now d f k]
    audiobook_block_v4_dry[of cfg fa srv w A now d f k]
  by simp

theorem dry_run_sends_nothing_witness:
  "dry_run (demo_config True)
   \<and> main_v4 demo_server (demo_config True) demo_now [] = (Inr (3, 0, 1), [], [])
   \<and> process_podcasts (demo_config True) \<and> process_audiobooks (demo_config True)
   \<and> build_episode_map_v4 demo_server [] = Inr demo_episodes
   \<and> build_audiobook_map_v4 demo_server [] [''B1'', ''B2''] = Inr demo_audiobooks
   \<and> podcast_block_v4 demo_server (demo_config True) demo_now [''e1'', ''e2'', ''e3'', ''e5'']
        ((([], []), 0, 0), 0) =
       Inr ((([], []), 0 + length (fst (find_episodes_v4 (min_age (demo_config True)) demo_now
                  demo_episodes [''e1'', ''e2'', ''e3'', ''e5''] ([], 0))), 0),
            snd (find_episodes_v4 (min_age (demo_config True)) demo_now
                  demo_episodes [''e1'', ''e2'', ''e3'', ''e5''] ([], 0)))
   \<and> audiobook_block_v4 demo_server (demo_config True) demo_now [''B1'', ''B2'']
        ((([], []), 0, 0), 0) =
       Inr ((([], []), 0 + length (fst (audiobooks_to_delete_v4 (min_age (demo_config True))
                  demo_now demo_audiobooks 0)), 0),
            snd (audiobooks_to_delete_v4 (min_age (demo_config True)) demo_now demo_audiobooks 0))"
  using dry_run_sends_nothing [where srv = demo_server and cfg = "demo_config True"
      and now = demo_now and ?s0.0 = "[]" and td = 3 and tf = 0 and tk = 1
      and ?w1.0 = "([], [])" and w = "([], [])" and d = 0 and f = 0 and k = 0
      and fe = "[''e1'', ''e2'', ''e3'', ''e5'']" and fa = "[''B1'', ''B2'']"
      and M = demo_episodes and A = demo_audiobooks
      and eps = "[] :: (string \<times> ep_info) list" and abks = "[] :: ab_info list"]
    demo_episode_map demo_audiobook_map demo_dry_run_config
  by (simp add: demo_config_def process_podcasts_def process_audiobooks_def)

text \<open>
  C1. An item whose fetched media tags contain \<open>KEEP\<close> is never eligible: no entry of
  the map built by \<^verbatim>\<open>build_episode_map\<close> or \<^verbatim>\<open>build_audiobook_map\<close> (v4, and v2/v3)
  has it as its library item, so neither has any candidate of the lists selected from
  those maps; and the requests a block of \<^verbatim>\<open>main\<close> adds are the requests of a list of
  candidates none of which belongs to that item.
\<close>

theorem keep_tagged_never_deleted:
  "get_library_item srv s lid = Inr full \<and> ''KEEP'' \<in> set (tags_of full) \<longrightarrow>
     (build_episode_map_v4 srv s = Inr M \<longrightarrow>
        (\<forall>x \<in> set M. library_item_id (snd x) \<noteq> lid)
        \<and> (\<forall>c \<in> set (fst (find_episodes_v4 age now M F ([], k))). library_item_id (snd c) \<noteq> lid))
   \<and> (build_audiobook_map_v4 srv s Fa = Inr A \<longrightarrow>
        lid \<notin> fst ` set A \<and> (\<forall>x \<in> set A. ab_library_item_id (snd x) \<noteq> lid)
        \<and> (\<forall>x \<in> set (fst (audiobooks_to_delete_v4 age now A k)).
              ab_library_item_id (snd x) \<noteq> lid))
   \<and> (build_episode_map_v3 srv s = Inr M3 \<longrightarrow>
        (\<forall>x \<in> set M3. library_item_id (snd x) \<noteq> lid)
        \<and> (\<forall>c \<in> set (find_episodes M3 F []). library_item_id (snd c) \<noteq> lid))
   \<and> (build_audiobook_map_v3 srv s Fa = Inr A3 \<longrightarrow>
        lid \<notin> fst ` set A3 \<and> (\<forall>x \<in> set A3. ab_library_item_id (snd x) \<noteq> lid))
   \<and> (podcast_block_v4 srv cfg now fe (((s, log), d, f), k) = Inr ((w1, d1, f1), k1) \<longrightarrow>
        (\<exists>cands :: (string \<times> ep_info4) list.
            (\<forall>c \<in> set cands. library_item_id (snd c) \<noteq> lid)
            \<and> snd w1 = log @ (if dry_run cfg then []
                 else map (\<lambda>ep. Delete (episode_endpoint (library_item_id (snd ep)) (fst ep))
                                   [(''hard'', ''1'')]) cands)))
   \<and> (audiobook_block_v4 srv cfg now fa (((s, log), d, f), k) = Inr ((w2, d2, f2), k2) \<longrightarrow>
        (\<exists>cands :: ab_info4 list.
            (\<forall>c \<in> set cands. ab_library_item_id c \<noteq> lid)
            \<and> snd w2 = log @ (if dry_run cfg then []
                 else map (\<lambda>ab. Delete (item_endpoint (ab_library_item_id ab))
                                   [(''hard'', ''1'')]) cands)))"
proof (intro impI)
  assume "get_library_item srv s lid = Inr full \<and> ''KEEP'' \<in> set (tags_of full)"
  then have kept: "\<not> not_kept srv s lid" by (simp add: not_kept_def)
  have 1: "(\<forall>x \<in> set M. library_item_id (snd x) \<noteq> lid)
        \<and> (\<forall>c \<in> set (fst (find_episodes_v4 age now M F ([], k))). library_item_id (snd c) \<noteq> lid)"
    if "build_episode_map_v4 srv s = Inr M"
    using build_episode_map_v4_not_kept[OF that] find_episodes_v4_subset[of age now M F k] kept
    by blast
  have 2: "lid \<notin> fst ` set A \<and> (\<forall>x \<in> set A. ab_library_item_id (snd x) \<noteq> lid)
        \<and> (\<forall>x \<in> set (fst (audiobooks_to_delete_v4 age now A k)).
              ab_library_item_id (snd x) \<noteq> lid)"
    if "build_audiobook_map_v4 srv s Fa = Inr A"
    using build_audiobook_map_v4_not_kept[OF that] audiobooks_to_delete_v4_subset[of age now A k]
      kept
    by (metis (no_types, lifting) imageE subsetD)
  have 3: "(\<forall>x \<in> set M3. library_item_id (snd x) \<noteq> lid)
        \<and> (\<forall>c \<in> set (find_episodes M3 F []). library_item_id (snd c) \<noteq> lid)"
    if "build_episode_map_v3 srv s = Inr M3"
    using build_episode_map_v3_not_kept[OF that] find_episodes_subset[of M3 F] kept
    by blast
  have 4: "lid \<notin> fst ` set A3 \<and> (\<forall>x \<in> set A3. ab_library_item_id (snd x) \<noteq> lid)"
    if "build_audiobook_map_v3 srv s Fa = Inr A3"
    using build_audiobook_map_v3_not_kept[OF that] kept
    by (metis (no_types, lifting) imageE)
  have 5: "\<exists>cands :: (string \<times> ep_info4) list.
            (\<forall>c \<in> set cands. library_item_id (snd c) \<noteq> lid)
            \<and> snd w1 = log @ (if dry_run cfg then []
                 else map (\<lambda>ep. Delete (episode_endpoint (library_item_id (snd ep)) (fst ep))
                                   [(''hard'', ''1'')]) cands)"
    if "podcast_block_v4 srv cfg now fe (((s, log), d, f), k) = Inr ((w1, d1, f1), k1)"
  proof -
    from podcast_block_v4_summary[OF that] obtain cands :: "(string \<times> ep_info4) list" where
      c: "\<forall>c \<in> set cands. not_kept srv s (library_item_id (snd c))"
      "if dry_run cfg then w1 = (s, log) \<and> f1 = f
       else snd w1 = log @ map (\<lambda>ep. Delete (episode_endpoint (library_item_id (snd ep)) (fst ep))
                                         [(''hard'', ''1'')]) cands"
      by auto
    have "\<forall>c \<in> set cands. library_item_id (snd c) \<noteq> lid" using c(1) kept by blast
    moreover have "snd w1 = log @ (if dry_run cfg then []
                 else map (\<lambda>ep. Delete (episode_endpoint (library_item_id (snd ep)) (fst ep))
                                   [(''hard'', ''1'')]) cands)"
      using c(2) by (cases "dry_run cfg") simp_all
    ultimately show ?thesis by blast
  qed
  have 6: "\<exists>cands :: ab_info4 list.
            (\<forall>c \<in> set cands. ab_library_item_id c \<noteq> lid)
            \<and> snd w2 = log @ (if dry_run cfg then []
                 else map (\<lambda>ab. Delete (item_endpoint (ab_library_item_id ab))
                                   [(''hard'', ''1'')]) cands)"
    if "audiobook_block_v4 srv cfg now fa (((s, log), d, f), k) = Inr ((w2, d2, f2), k2)"
  proof -
    from audiobook_block_v4_summary[OF that] obtain cands :: "ab_info4 list" where
      c: "\<forall>c \<in> set cands. not_kept srv s (ab_library_item_id c)"
      "if dry_run cfg then w2 = (s, log) \<and> f2 = f
       else snd w2 = log @ map (\<lambda>ab. Delete (item_endpoint (ab_library_item_id ab))
                                         [(''hard'', ''1'')]) cands"
      by auto
    have "\<forall>c \<in> set cands. ab_library_item_id c \<noteq> lid" using c(1) kept by blast
    moreover have "snd w2 = log @ (if dry_run cfg then []
                 else map (\<lambda>ab. Delete (item_endpoint (ab_library_item_id ab))
                                   [(''hard'', ''1'')]) cands)"
      using c(2) by (cases "dry_run cfg") simp_all
    ultimately show ?thesis by blast
  qed
  show "(build_episode_map_v4 srv s = Inr M \<longrightarrow>
        (\<forall>x \<in> set M. library_item_id (snd x) \<noteq> lid)
        \<and> (\<forall>c \<in> set (fst (find_episodes_v4 age now M F ([], k))). library_item_id (snd c) \<noteq> lid))
   \<and> (build_audiobook_map_v4 srv s Fa = Inr A \<longrightarrow>
        lid \<notin> fst ` set A \<and> (\<forall>x \<in> set A. ab_library_item_id (snd x) \<noteq> lid)
        \<and> (\<forall>x \<in> set (fst (audiobooks_to_delete_v4 age now A k)).
              ab_library_item_id (snd x) \<noteq> lid))
   \<and> (build_episode_map_v3 srv s = Inr M3 \<longrightarrow>
        (\<forall>x \<in> set M3. library_item_id (snd x) \<noteq> lid)
        \<and> (\<forall>c \<in> set (find_episodes M3 F []). library_item_id (snd c) \<noteq> lid))
   \<and> (build_audiobook_map_v3 srv s Fa = Inr A3 \<longrightarrow>
        lid \<notin> fst ` set A3 \<and> (\<forall>x \<in> set A3. ab_library_item_id (snd x) \<noteq> lid))
   \<and> (podcast_block_v4 srv cfg now fe (((s, log), d, f), k) = Inr ((w1, d1, f1), k1) \<longrightarrow>
        (\<exists>cands :: (string \<times> ep_info4) list.
            (\<forall>c \<in> set cands. library_item_id (snd c) \<noteq> lid)
            \<and> snd w1 = log @ (if dry_run cfg then []
                 else map (\<lambda>ep. Delete (episode_endpoint (library_item_id (snd ep)) (fst ep))
                                   [(''hard'', ''1'')]) cands)))
   \<and> (audiobook_block_v4 srv cfg now fa (((s, log), d, f), k) = Inr ((w2, d2, f2), k2) \<longrightarrow>
        (\<exists>cands :: ab_info4 list.
            (\<forall>c \<in> set cands. ab_library_item_id c \<noteq> lid)
            \<and> snd w2 = log @ (if dry_run cfg then []
                 else map (\<lambda>ab. Delete (item_endpoint (ab_library_item_id ab))
                                   [(''hard'', ''1'')]) cands)))"
    using 1 2 3 4 5 6 by (intro conjI impI) blast+
qed

lemma demo_kept_book_item: "get_library_item demo_server [] ''B2'' = Inr demo_kept_book"
  by code_simp

lemma demo_kept_tags:
  "''KEEP'' \<in> set (tags_of demo_kept) \<and> ''KEEP'' \<in> set (tags_of demo_kept_book)"
  by code_simp

theorem keep_tagged_never_deleted_witness:
  "get_library_item demo_server [] ''P2'' = Inr demo_kept
   \<and> ''KEEP'' \<in> set (tags_of demo_kept)
   \<and> build_episode_map_v4 demo_server [] = Inr demo_episodes
   \<and> ''P2'' \<notin> (\<lambda>x. library_item_id (snd x)) ` set demo_episodes
   \<and> build_episode_map_v3 demo_server [] = Inr demo_episodes_v3
   \<and> ''P2'' \<notin> (\<lambda>x. library_item_id (snd x)) ` set demo_episodes_v3
   \<and> podcast_block_v4 demo_server (demo_config False) demo_now [''e1'', ''e2'', ''e3'', ''e5'']
        ((([], []), 0, 0), 0) =
      Inr ((([''/api/podcasts/P1/episode/e1''],
          [Delete ''/api/podcasts/P1/episode/e1'' [(''hard'', ''1'')],
           Delete ''/api/podcasts/P1/episode/e5'' [(''hard'', ''1'')]]), 1, 1), 1)
   \<and> get_library_item demo_server [] ''B2'' = Inr demo_kept_book
   \<and> ''KEEP'' \<in> set (tags_of demo_kept_book)
   \<and> build_audiobook_map_v4 demo_server [] [''B1'', ''B2''] = Inr demo_audiobooks
   \<and> ''B2'' \<notin> fst ` set demo_audiobooks
   \<and> build_audiobook_map_v3 demo_server [] [''B1'', ''B2''] = Inr demo_audiobooks_v3
   \<and> ''B2'' \<notin> fst ` set demo_audiobooks_v3
   \<and> audiobook_block_v4 demo_server (demo_config False) demo_now [''B1'', ''B2'']
        ((([], []), 0, 0), 0) =
      Inr ((([''/api/items/B1''], [Delete ''/api/items/B1'' [(''hard'', ''1'')]]), 1, 0), 0)"
  using keep_tagged_never_deleted [where srv = demo_server and s = "[]" and lid = "''P2''"
      and full = demo_kept and M = demo_episodes and ?M3.0 = demo_episodes_v3
      and A = demo_audiobooks and ?A3.0 = demo_audiobooks_v3
      and F = "[''e1'', ''e2'', ''e3'', ''e5'']" and Fa = "[''B1'', ''B2'']"
      and age = "Some (timedelta_days 30)" and now = demo_now and k = 0
      and cfg = "demo_config False" and fe = "[''e1'', ''e2'', ''e3'', ''e5'']"
      and fa = "[''B1'', ''B2'']" and log = "[]" and d = 0 and f = 0
      and ?w1.0 = "([''/api/podcasts/P1/episode/e1''],
          [Delete ''/api/podcasts/P1/episode/e1'' [(''hard'', ''1'')],
           Delete ''/api/podcasts/P1/episode/e5'' [(''hard'', ''1'')]])"
      and ?d1.0 = 1 and ?f1.0 = 1 and ?k1.0 = 1
      and ?w2.0 = "([''/api/items/B1''], [Delete ''/api/items/B1'' [(''hard'', ''1'')]])"
      and ?d2.0 = 1 and ?f2.0 = 0 and ?k2.0 = 0]
    keep_tagged_never_deleted [where srv = demo_server and s = "[]" and lid = "''B2''"
      and full = demo_kept_book and M = demo_episodes and ?M3.0 = demo_episodes_v3
      and A = demo_audiobooks and ?A3.0 = demo_audiobooks_v3
      and F = "[''e1'', ''e2'', ''e3'', ''e5'']" and Fa = "[''B1'', ''B2'']"
      and age = "Some (timedelta_days 30)" and now = demo_now and k = 0
      and cfg = "demo_config False" and fe = "[''e1'', ''e2'', ''e3'', ''e5'']"
      and fa = "[''B1'', ''B2'']" and log = "[]" and d = 0 and f = 0
      and ?w1.0 = "([''/api/podcasts/P1/episode/e1''],
          [Delete ''/api/podcasts/P1/episode/e1'' [(''hard'', ''1'')],
           Delete ''/api/podcasts/P1/episode/e5'' [(''hard'', ''1'')]])"
      and ?d1.0 = 1 and ?f1.0 = 1 and ?k1.0 = 1
      and ?w2.0 = "([''/api/items/B1''], [Delete ''/api/items/B1'' [(''hard'', ''1'')]])"
      and ?d2.0 = 1 and ?f2.0 = 0 and ?k2.0 = 0]
    demo_kept_item demo_kept_book_item demo_kept_tags demo_episode_map demo_episode_map_v3
    demo_audiobook_map demo_audiobook_map_v3 demo_podcast_block demo_audiobook_block
  by (simp add: demo_episodes_def demo_episodes_v3_def demo_audiobooks_def
      demo_audiobooks_v3_def)

section \<open>Listings\<close>

text \<open>
  C8 as stated fails: the server reports podcast \<open>B\<close> on the second page of the listing
  of library \<open>L\<close>, \<open>B\<close> has no \<open>KEEP\<close> tag and its episode \<open>b1\<close> is finished, yet
  the episode map has no entry for \<open>b1\<close> and the run deletes the episode of \<open>A\<close> only.
\<close>

theorem pagination_counterexample:
  "items_resp paged_server () ''L'' [(''page'', ''1'')] = Inr [\<lparr>item_id = ''B''\<rparr>]
   \<and> get_library_item paged_server () ''B'' = Inr (paged_item ''Podcast B'' ''b1'')
   \<and> not_kept paged_server () ''B''
   \<and> fst (get_finished_media \<lparr>mediaProgress =
         [\<lparr>isFinished = True, episodeId = Some ''a1'', libraryItemId = Some ''A''\<rparr>,
          \<lparr>isFinished = True, episodeId = Some ''b1'', libraryItemId = Some ''B''\<rparr>]\<rparr>)
       = [''a1'', ''b1'']
   \<and> build_episode_map_v4 paged_server () =
       Inr [(''a1'', \<lparr>library_item_id = ''A'', podcast_title = ''Podcast A'',
                      episode_title = ''Episode'', added_at = Some 1700000000000\<rparr>)]
   \<and> main_v4 paged_server \<lparr>dry_run = False, media_type = EVERYTHING, min_age = None\<rparr> 0 () =
       (Inr (1, 0, 0), (), [Delete ''/api/podcasts/A/episode/a1'' [(''hard'', ''1'')]])"
  by code_simp

text \<open>
  C8, amended. For every library the scan requests the listing once, without query
  parameters, and the eligible-item lookup covers exactly the items of that one answer:
  the keys of the episode map are the truthy episode identifiers of the listed podcasts
  that were fetched and carry no \<open>KEEP\<close> tag, and the keys of the audiobook map are the
  finished identifiers among the listed books that were fetched and carry no \<open>KEEP\<close>
  tag. No further page is requested.
\<close>

theorem scan_covers_single_listing:
  "(build_episode_map_v4 srv s = Inr M \<longrightarrow>
      (\<exists>libs. get_podcast_libraries srv s = Inr libs \<and>
         fst ` set M =
           {e. \<exists>lib \<in> set libs. \<exists>its. items_resp srv s (lib_id lib) [] = Inr its
                 \<and> e \<in> podcast_episode_ids srv s its}))
   \<and> (build_episode_map_v3 srv s = Inr M3 \<longrightarrow>
      (\<exists>libs. get_podcast_libraries srv s = Inr libs \<and>
         fst ` set M3 =
           {e. \<exists>lib \<in> set libs. \<exists>its. items_resp srv s (lib_id lib) [] = Inr its
                 \<and> e \<in> podcast_episode_ids srv s its}))
   \<and> (build_audiobook_map_v4 srv s F = Inr A \<longrightarrow>
      (\<exists>libs. get_book_libraries srv s = Inr libs \<and>
         fst ` set A =
           {l. l \<in> set F \<and> not_kept srv s l \<and>
             (\<exists>lib \<in> set libs. \<exists>its. items_resp srv s (lib_id lib) [] = Inr its
                 \<and> (\<exists>it \<in> set its. item_id it = l))}))
   \<and> (build_audiobook_map_v3 srv s F = Inr A3 \<longrightarrow>
      (\<exists>libs. get_book_libraries srv s = Inr libs \<and>
         fst ` set A3 =
           {l. l \<in> set F \<and> not_kept srv s l \<and>
             (\<exists>lib \<in> set libs. \<exists>its. items_resp srv s (lib_id lib) [] = Inr its
                 \<and> (\<exists>it \<in> set its. item_id it = l))}))"
  using build_episode_map_keys[of episode_entry_v4 srv s M]
    build_episode_map_keys[of episode_entry_v3 srv s M3]
    build_audiobook_map_keys[of audiobook_entry_v4 srv s F A]
    build_audiobook_map_keys[of audiobook_entry_v3 srv s F A3]
  unfolding build_episode_map_v4_def build_episode_map_v3_def build_audiobook_map_v4_def
    build_audiobook_map_v3_def get_library_items_def
  by blast

theorem scan_covers_single_listing_witness:
  "build_episode_map_v4 demo_server [] = Inr demo_episodes
   \<and> build_episode_map_v3 demo_server [] = Inr demo_episodes_v3
   \<and> build_audiobook_map_v4 demo_server [] [''B1'', ''B2''] = Inr demo_audiobooks
   \<and> build_audiobook_map_v3 demo_server [] [''B1'', ''B2''] = Inr demo_audiobooks_v3
   \<and> (\<exists>libs. get_podcast_libraries demo_server [] = Inr libs \<and>
         fst ` set demo_episodes =
           {e. \<exists>lib \<in> set libs. \<exists>its. items_resp demo_server [] (lib_id lib) [] = Inr its
                 \<and> e \<in> podcast_episode_ids demo_server [] its})
   \<and> (\<exists>libs. get_book_libraries demo_server [] = Inr libs \<and>
         fst ` set demo_audiobooks =
           {l. l \<in> set [''B1'', ''B2''] \<and> not_kept demo_server [] l \<and>
             (\<exists>lib \<in> set libs. \<exists>its. items_resp demo_server [] (lib_id lib) [] = Inr its
                 \<and> (\<exists>it \<in> set its. item_id it = l))})"
  using scan_covers_single_listing [where srv = demo_server and s = "[]"
      and M = demo_episodes and ?M3.0 = demo_episodes_v3 and F = "[''B1'', ''B2'']"
      and A = demo_audiobooks and ?A3.0 = demo_audiobooks_v3]
    demo_episode_map demo_episode_map_v3 demo_audiobook_map demo_audiobook_map_v3
  by simp

section \<open>The three versions\<close>

lemma demo_run_v3_podcasts:
  "main_v3 demo_server \<lparr>dry_run = False, media_type = PODCASTS\<rparr> [] =
   (Inr (2, 1),
    [''/api/podcasts/P1/episode/e1'', ''/api/podcasts/P1/episode/e2''],
    [Delete ''/api/podcasts/P1/episode/e1'' [(''hard'', ''1'')],
     Delete ''/api/podcasts/P1/episode/e2'' [(''hard'', ''1'')],
     Delete ''/api/podcasts/P1/episode/e5'' [(''hard'', ''1'')]])"
  by code_simp

lemma finished_episode_loop_fst:
  "finished_episode_loop ps fe = fst (finished_loop ps (fe, fa))"
proof (induction ps arbitrary: fe fa)
  case Nil
  show ?case by simp
next
  case (Cons p ps)
  show ?case
    by (cases "truthy_str (episodeId p)"; cases "truthy_str (libraryItemId p)")
       (simp_all add: Cons.IH[symmetric])
qed

lemma get_finished_episode_ids_fst:
  "get_finished_episode_ids u = fst (get_finished_media u)"
  by (simp add: get_finished_episode_ids_def get_finished_media_def
      finished_episode_loop_fst[of _ _ "[]"])

lemma update_map_apsnd:
  "AList.update k (g v) (map (apsnd g) m) = map (apsnd g) (AList.update k v m)"
  by (induction m) auto

lemma add_episodes_map:
  assumes "\<And>lid pt ep. g (entry4 lid pt ep) = entry3 lid pt ep"
  shows "add_episodes entry3 lid pt eps (map (apsnd g) m) =
     map (apsnd g) (add_episodes entry4 lid pt eps m)"
proof (induction eps arbitrary: m)
  case Nil
  show ?case by simp
next
  case (Cons ep eps)
  have upd: "AList.update k (entry3 lid pt ep) (map (apsnd g) m) =
      map (apsnd g) (AList.update k (entry4 lid pt ep) m)" for k
    using update_map_apsnd[of k g "entry4 lid pt ep" m] assms by simp
  show ?case
    by (cases "truthy_str (ep_id ep)") (simp_all add: Cons.IH upd)
qed

lemma scan_podcasts_map:
  assumes "\<And>lid pt ep. g (entry4 lid pt ep) = entry3 lid pt ep"
  shows "scan_podcasts entry3 srv s its (map (apsnd g) m) =
     map (apsnd g) (scan_podcasts entry4 srv s its m)"
proof (induction its arbitrary: m)
  case Nil
  show ?case by simp
next
  case (Cons it its)
  show ?case
    by (cases "get_library_item srv s (item_id it)")
       (simp_all add: Cons.IH add_episodes_map[of g entry4 entry3, OF assms])
qed

lemma scan_podcast_libraries_map:
  assumes "\<And>lid pt ep. g (entry4 lid pt ep) = entry3 lid pt ep"
  shows "scan_podcast_libraries entry3 srv s libs (map (apsnd g) m) =
     map_sum id (map (apsnd g)) (scan_podcast_libraries entry4 srv s libs m)"
proof (induction libs arbitrary: m)
  case Nil
  show ?case by simp
next
  case (Cons lib libs)
  show ?case
    by (cases "get_library_items srv s (lib_id lib)")
       (simp_all add: Cons.IH scan_podcasts_map[of g entry4 entry3, OF assms])
qed

lemma build_episode_map_map:
  assumes "\<And>lid pt ep. g (entry4 lid pt ep) = entry3 lid pt ep"
  shows "build_episode_map entry3 srv s =
     map_sum id (map (apsnd g)) (build_episode_map entry4 srv s)"
  using scan_podcast_libraries_map[of g entry4 entry3 srv s _ "[]", OF assms]
  by (cases "get_podcast_libraries srv s") (simp_all add: build_episode_map_def)

lemma build_episode_map_v3_v4:
  "build_episode_map_v3 srv s =
     map_sum id (map (apsnd ep_info.truncate)) (build_episode_map_v4 srv s)"
  unfolding build_episode_map_v3_def build_episode_map_v4_def
  by (rule build_episode_map_map)
     (simp add: episode_entry_v3_def episode_entry_v4_def ep_info.defs)

lemma scan_audiobooks_map:
  assumes "\<And>lid full. g (entry4 lid full) = entry3 lid full"
  shows "scan_audiobooks entry3 srv s F its (map (apsnd g) m) =
     map (apsnd g) (scan_audiobooks entry4 srv s F its m)"
proof (induction its arbitrary: m)
  case Nil
  show ?case by simp
next
  case (Cons it its)
  have upd: "AList.update k (entry3 k full) (map (apsnd g) m) =
      map (apsnd g) (AList.update k (entry4 k full) m)" for k full
    using update_map_apsnd[of k g "entry4 k full" m] assms by simp
  show ?case
    by (cases "get_library_item srv s (item_id it)") (simp_all add: Cons.IH upd)
qed

lemma scan_book_libraries_map:
  assumes "\<And>lid full. g (entry4 lid full) = entry3 lid full"
  shows "scan_book_libraries entry3 srv s F libs (map (apsnd g) m) =
     map_sum id (map (apsnd g)) (scan_book_libraries entry4 srv s F libs m)"
proof (induction libs arbitrary: m)
  case Nil
  show ?case by simp
next
  case (Cons lib libs)
  show ?case
    by (cases "get_library_items srv s (lib_id lib)")
       (simp_all add: Cons.IH scan_audiobooks_map[of g entry4 entry3, OF assms])
qed

lemma build_audiobook_map_map:
  assumes "\<And>lid full. g (entry4 lid full) = entry3 lid full"
  shows "build_audiobook_map entry3 srv s F =
     map_sum id (map (apsnd g)) (build_audiobook_map entry4 srv s F)"
  using scan_book_libraries_map[of g entry4 entry3 srv s F _ "[]", OF assms]
  by (cases "get_book_libraries srv s") (simp_all add: build_audiobook_map_def)

lemma build_audiobook_map_v3_v4:
  "build_audiobook_map_v3 srv s F =
     map_sum id (map (apsnd ab_info.truncate)) (build_audiobook_map_v4 srv s F)"
  unfolding build_audiobook_map_v3_def build_audiobook_map_v4_def
  by (rule build_audiobook_map_map)
     (simp add: audiobook_entry_v3_def audiobook_entry_v4_def ab_info.defs)

lemma map_of_map_apsnd: "map_of (map (apsnd g) M) e = map_option g (map_of M e)"
  by (induction M) auto

lemma find_episodes_map:
  "find_episodes (map (apsnd g) M) F (map (apsnd g) acc) =
     map (apsnd g) (fst (find_episodes_v4 None now M F (acc, k)))"
proof (induction F arbitrary: acc)
  case Nil
  show ?case by simp
next
  case (Cons e F)
  show ?case
  proof (cases "map_of M e")
    case None
    then show ?thesis using Cons.IH[of acc] by (simp add: map_of_map_apsnd)
  next
    case (Some v)
    then show ?thesis using Cons.IH[of "acc @ [(e, v)]"] by (simp add: map_of_map_apsnd)
  qed
qed

lemma find_episodes_v4_None_snd: "snd (find_episodes_v4 None now M F (acc, k)) = k"
  by (simp add: find_episodes_v4_None)

lemma delete_episodes_cong:
  "map (\<lambda>ep. (library_item_id (snd ep), fst ep)) eps
     = map (\<lambda>ep. (library_item_id (snd ep), fst ep)) eps' \<Longrightarrow>
   delete_episodes srv dry eps st = delete_episodes srv dry eps' st"
proof (induction eps arbitrary: eps' st)
  case Nil
  then show ?case by simp
next
  case (Cons ep eps)
  then obtain ep' rest where e: "eps' = ep' # rest" by (cases eps') auto
  obtain w d f where st: "st = (w, d, f)" by (cases st)
  have same: "library_item_id (snd ep) = library_item_id (snd ep')" "fst ep = fst ep'"
    and rest: "map (\<lambda>ep. (library_item_id (snd ep), fst ep)) eps
     = map (\<lambda>ep. (library_item_id (snd ep), fst ep)) rest"
    using Cons.prems e by auto
  show ?case unfolding e st by (simp add: same Cons.IH[OF rest])
qed

lemma delete_audiobooks_cong:
  "map ab_library_item_id abks = map ab_library_item_id abks' \<Longrightarrow>
   delete_audiobooks srv dry abks st = delete_audiobooks srv dry abks' st"
proof (induction abks arbitrary: abks' st)
  case Nil
  then show ?case by simp
next
  case (Cons ab abks)
  then obtain ab' rest where e: "abks' = ab' # rest" by (cases abks') auto
  obtain w d f where st: "st = (w, d, f)" by (cases st)
  have same: "ab_library_item_id ab = ab_library_item_id ab'"
    and rest: "map ab_library_item_id abks = map ab_library_item_id rest"
    using Cons.prems e by auto
  show ?case unfolding e st by (simp add: same Cons.IH[OF rest])
qed

lemma podcast_block_v4_v3:
  "podcast_block_v4 srv \<lparr>dry_run = dry, media_type = mt, min_age = None\<rparr> now fe (st, k) =
     map_sum id (\<lambda>st'. (st', k)) (podcast_block_v3 srv \<lparr>dry_run = dry, media_type = mt\<rparr> fe st)"
proof (cases "build_episode_map_v4 srv (fst (fst st))")
  case (Inl e)
  then show ?thesis
    by (simp add: podcast_block_v4_def podcast_block_v3_def build_episode_map_v3_v4
        process_podcasts_def)
next
  case (Inr M)
  have "delete_episodes srv dry (find_episodes (map (apsnd ep_info.truncate) M) fe []) st
      = delete_episodes srv dry (fst (find_episodes_v4 None now M fe ([], k))) st"
    by (rule delete_episodes_cong)
       (simp add: find_episodes_map[of ep_info.truncate M fe "[]" now k, simplified]
          comp_def ep_info.defs)
  then show ?thesis using Inr
    by (simp add: podcast_block_v4_def podcast_block_v3_def build_episode_map_v3_v4
        process_podcasts_def case_prod_beta find_episodes_v4_None_snd)
qed

lemma audiobook_block_v4_v3:
  "audiobook_block_v4 srv \<lparr>dry_run = dry, media_type = mt, min_age = None\<rparr> now fa (st, k) =
     map_sum id (\<lambda>st'. (st', k)) (audiobook_block_v3 srv \<lparr>dry_run = dry, media_type = mt\<rparr> fa st)"
proof (cases "build_audiobook_map_v4 srv (fst (fst st)) fa")
  case (Inl e)
  then show ?thesis
    by (simp add: audiobook_block_v4_def audiobook_block_v3_def build_audiobook_map_v3_v4
        process_audiobooks_def)
next
  case (Inr M)
  have "delete_audiobooks srv dry (map snd (map (apsnd ab_info.truncate) M)) st
      = delete_audiobooks srv dry (map snd M) st"
    by (rule delete_audiobooks_cong) (simp add: comp_def ab_info.defs)
  then show ?thesis using Inr
    by (simp add: audiobook_block_v4_def audiobook_block_v3_def build_audiobook_map_v3_v4
        process_audiobooks_def audiobooks_to_delete_v4_def)
qed

lemma main_v4_v3:
  "main_v4 srv \<lparr>dry_run = dry, media_type = mt, min_age = None\<rparr> now s0 =
     (map_sum id (\<lambda>(d, f). (d, f, 0)) (fst (main_v3 srv \<lparr>dry_run = dry, media_type = mt\<rparr> s0)),
      snd (main_v3 srv \<lparr>dry_run = dry, media_type = mt\<rparr> s0))"
proof (cases "get_user_with_progress srv s0")
  case (Inl e)
  then show ?thesis by (cases e) (simp_all add: main_v4_def main_v3_def)
next
  case (Inr u)
  obtain fe fa where fin: "get_finished_media u = (fe, fa)" by (cases "get_finished_media u")
  show ?thesis
  proof (cases "podcast_block_v3 srv \<lparr>dry_run = dry, media_type = mt\<rparr> fe ((s0, []), 0, 0)")
    case (Inl e)
    then show ?thesis
      by (simp add: main_v4_def main_v3_def Inr fin podcast_block_v4_v3)
  next
    case b1: (Inr st1)
    show ?thesis
    proof (cases "audiobook_block_v3 srv \<lparr>dry_run = dry, media_type = mt\<rparr> fa st1")
      case (Inl e)
      then show ?thesis
        by (simp add: main_v4_def main_v3_def Inr fin b1 podcast_block_v4_v3
            audiobook_block_v4_v3)
    next
      case b2: (Inr st2)
      obtain w d f where st2: "st2 = (w, d, f)" by (cases st2)
      show ?thesis
        by (simp add: main_v4_def main_v3_def Inr fin b1 b2 st2 podcast_block_v4_v3
            audiobook_block_v4_v3)
    qed
  qed
qed

lemma main_v3_v2:
  "snd (main_v3 srv \<lparr>dry_run = dry, media_type = PODCASTS\<rparr> s0) = snd (main_v2 srv dry s0)"
proof (cases "get_user_with_progress srv s0")
  case (Inl e)
  then show ?thesis by (cases e) (simp_all add: main_v3_def main_v2_def)
next
  case (Inr u)
  obtain fe fa where fin: "get_finished_media u = (fe, fa)" by (cases "get_finished_media u")
  then have fe: "get_finished_episode_ids u = fe" by (simp add: get_finished_episode_ids_fst)
  have ab: "audiobook_block_v3 srv \<lparr>dry_run = dry, media_type = PODCASTS\<rparr> fa st = Inr st" for st
    by (simp add: audiobook_block_v3_def process_audiobooks_def)
  show ?thesis
  proof (cases "fe = []")
    case True
    then show ?thesis
      by (simp add: main_v3_def main_v2_def Inr fin fe ab podcast_block_v3_def)
  next
    case False
    show ?thesis
    proof (cases "build_episode_map_v3 srv s0")
      case (Inl e)
      then show ?thesis using False
        by (simp add: main_v3_def main_v2_def Inr fin fe ab podcast_block_v3_def
            process_podcasts_def)
    next
      case M: (Inr M)
      show ?thesis
      proof (cases "find_episodes M fe [] = []")
        case True
        then show ?thesis using False M
          by (simp add: main_v3_def main_v2_def Inr fin fe ab podcast_block_v3_def
              process_podcasts_def)
      next
        case cands: False
        obtain w d f where r:
          "delete_episodes srv dry (find_episodes M fe []) ((s0, []), 0, 0) = (w, d, f)"
          by (cases "delete_episodes srv dry (find_episodes M fe []) ((s0, []), 0, 0)")
        show ?thesis using False M cands r
          by (simp add: main_v3_def main_v2_def Inr fin fe ab podcast_block_v3_def
              process_podcasts_def)
      qed
    qed
  qed
qed

text \<open>
  C6. The versions are supersets of one another. On the same server, the run of v4 with
  no AGE configured is the run of v3 with the same dry-run flag and MEDIA_TYPE: the same
  DELETE requests in the same order, the same final server state, the same way of ending
  and the same deleted and failed counts (with nothing skipped). The run of v3 with
  MEDIA_TYPE=PODCASTS sends the same DELETE requests, in the same order and with the same
  final server state, as the run of v2.
\<close>

theorem versions_are_supersets:
  "main_v4 srv \<lparr>dry_run = dry, media_type = mt, min_age = None\<rparr> now s0 =
     (map_sum id (\<lambda>(d, f). (d, f, 0)) (fst (main_v3 srv \<lparr>dry_run = dry, media_type = mt\<rparr> s0)),
      snd (main_v3 srv \<lparr>dry_run = dry, media_type = mt\<rparr> s0))
   \<and> snd (main_v3 srv \<lparr>dry_run = dry, media_type = PODCASTS\<rparr> s0) = snd (main_v2 srv dry s0)"
  using main_v4_v3[of srv dry mt now s0] main_v3_v2[of srv dry s0] by simp

theorem versions_are_supersets_witness:
  "main_v4 demo_server \<lparr>dry_run = False, media_type = PODCASTS, min_age = None\<rparr> demo_now [] =
     (Inr (2, 1, 0),
      [''/api/podcasts/P1/episode/e1'', ''/api/podcasts/P1/episode/e2''],
      [Delete ''/api/podcasts/P1/episode/e1'' [(''hard'', ''1'')],
       Delete ''/api/podcasts/P1/episode/e2'' [(''hard'', ''1'')],
       Delete ''/api/podcasts/P1/episode/e5'' [(''hard'', ''1'')]])
   \<and> snd (main_v3 demo_server \<lparr>dry_run = False, media_type = PODCASTS\<rparr> []) =
      ([''/api/podcasts/P1/episode/e1'', ''/api/podcasts/P1/episode/e2''],
      [Delete ''/api/podcasts/P1/episode/e1'' [(''hard'', ''1'')],
       Delete ''/api/podcasts/P1/episode/e2'' [(''hard'', ''1'')],
       Delete ''/api/podcasts/P1/episode/e5'' [(''hard'', ''1'')]])"
  using versions_are_supersets [where srv = demo_server and dry = False and mt = PODCASTS
      and now = demo_now and ?s0.0 = "[]"]
  by (simp add: demo_run_v2 demo_run_v3_podcasts)

end
